theory Spec2Isabelle
  imports Complex_Main
begin

section \<open>FuseDepthTool: data model\<close>

text \<open>
  The development embeds \<^verbatim>\<open>gui/tools/FuseDepthTool.cxx\<close>: the action handler
  \<^verbatim>\<open>FuseDepthTool::execute\<close>, the two converters \<^verbatim>\<open>load_depth_map\<close> and
  \<^verbatim>\<open>volume_to_vtk\<close>, and the worker \<^verbatim>\<open>FuseDepthTool::run\<close>.

  Conventions.
  \<^item> A \<^verbatim>\<open>double\<close> is a \<^typ>\<open>real\<close>. Pixel and voxel values are only copied; the one
    place where the libraries compute with them is the position of a grid point,
    \<^verbatim>\<open>origin + spacing * index\<close>, which is read here as exact arithmetic.
  \<^item> A \<^verbatim>\<open>size_t\<close> or \<^verbatim>\<open>vtkIdType\<close> quantity is a \<^typ>\<open>nat\<close> or \<^typ>\<open>int\<close>; wherever the
    source converts between integer types or lets a counter wrap, the conversion is
    written out (\<open>mod 2 ^ 32\<close>, \<open>mod 2 ^ 64\<close>).
  \<^item> A smart pointer that may be null is an \<^typ>\<open>'a option\<close>.
  \<^item> Behaviour the C++ standard leaves undefined is a value of type \<open>fault\<close>.
  \<^item> Calls that reach the user or the host application are recorded as a list of
    \<open>event\<close>s, in the order in which the source makes them.
\<close>

type_synonym double = real
type_synonym vector_3d = "double \<times> double \<times> double"

text \<open>
  A \<^verbatim>\<open>frame_id_t\<close> is a 64-bit signed integer that the tool only compares, never
  computes with.
\<close>

type_synonym frame_id_t = int

datatype fault =
  NullDereference
  | ArrayIndexOutOfRange
  | PixelOutOfRange
  | UninitialisedRead

subsection \<open>Configuration blocks\<close>

text \<open>
  A \<^verbatim>\<open>kwiver::vital::config_block\<close> is a key-value store. Its member
  \<^verbatim>\<open>merge_config(other)\<close> writes every value of \<^verbatim>\<open>other\<close> into the receiver, so a key
  that both hold ends with the value of \<^verbatim>\<open>other\<close>; keys that only the receiver
  holds keep their value.
\<close>

type_synonym config_block = "string \<rightharpoonup> string"

definition merge_config :: "config_block \<Rightarrow> config_block \<Rightarrow> config_block" where
  "merge_config this other = this ++ other"

definition BLOCK_IDM :: string where
  "BLOCK_IDM = ''integrate_depth_maps''"

subsection \<open>Cameras\<close>

text \<open>
  \<^verbatim>\<open>kwiver::vital::camera\<close> is a class hierarchy; the tool only asks whether an
  object is a \<^verbatim>\<open>camera_perspective\<close>. The number identifies the object.
\<close>

datatype camera = Perspective nat | Rpc nat

type_synonym camera_sptr = "camera option"

fun dynamic_pointer_cast_camera_perspective :: "camera_sptr \<Rightarrow> camera_sptr" where
  "dynamic_pointer_cast_camera_perspective None = None"
| "dynamic_pointer_cast_camera_perspective (Some (Perspective n)) = Some (Perspective n)"
| "dynamic_pointer_cast_camera_perspective (Some (Rpc n)) = None"

subsection \<open>Ordered maps\<close>

text \<open>
  A \<^verbatim>\<open>std::map\<close> is the list of its entries in iteration order, which is the
  strictly increasing order of the keys; \<^verbatim>\<open>find\<close> is \<^const>\<open>map_of\<close>.
\<close>

type_synonym ('k, 'v) std_map = "('k \<times> 'v) list"


subsection \<open>VTK arrays and image data\<close>

text \<open>
  A VTK data array has a name, an element type, a number of components per tuple
  and a flat sequence of values. \<^verbatim>\<open>vtkFieldData::GetArray(name)\<close> returns the first
  array of that name or null; \<^verbatim>\<open>dynamic_cast<vtkDoubleArray *>\<close> yields null unless
  the array holds doubles. \<^verbatim>\<open>GetValue\<close> and \<^verbatim>\<open>SetTuple1\<close> do not check their index.
\<close>

datatype vtk_type = VTK_DOUBLE | VTK_FLOAT | VTK_UNSIGNED_CHAR | VTK_INT

record vtkDataArray =
  array_name :: string
  array_type :: vtk_type
  components :: nat
  array_values :: "double list"

definition GetArray :: "vtkDataArray list \<Rightarrow> string \<Rightarrow> vtkDataArray option" where
  "GetArray arrays name = find (\<lambda>a. array_name a = name) arrays"

definition dynamic_cast_vtkDoubleArray :: "vtkDataArray option \<Rightarrow> vtkDataArray option" where
  "dynamic_cast_vtkDoubleArray p =
     (case p of
        None \<Rightarrow> None
      | Some a \<Rightarrow> if array_type a = VTK_DOUBLE then Some a else None)"

definition GetValue :: "vtkDataArray option \<Rightarrow> int \<Rightarrow> fault + double" where
  "GetValue p idx =
     (case p of
        None \<Rightarrow> Inl NullDereference
      | Some a \<Rightarrow>
          if 0 \<le> idx \<and> nat idx < length (array_values a)
          then Inr (array_values a ! nat idx)
          else Inl ArrayIndexOutOfRange)"

text \<open>
  A \<^verbatim>\<open>vtkImageData\<close> is a regular grid of points: an origin, a spacing and an
  extent of point indices per axis, with arrays attached to its points and to its
  cells. \<^verbatim>\<open>SetDimensions(i, j, k)\<close> sets the extent to \<open>0 .. i - 1\<close>,
  \<open>0 .. j - 1\<close>, \<open>0 .. k - 1\<close>; \<^verbatim>\<open>GetDimensions\<close> returns the number of points
  per axis.
\<close>

record vtkImageData =
  grid_origin :: vector_3d
  grid_spacing :: vector_3d
  grid_extent :: "(int \<times> int) \<times> (int \<times> int) \<times> (int \<times> int)"
  point_data :: "vtkDataArray list"
  cell_data :: "vtkDataArray list"

definition vtkImageData_New :: vtkImageData where
  "vtkImageData_New =
     \<lparr>grid_origin = (0, 0, 0), grid_spacing = (1, 1, 1),
      grid_extent = ((0, -1), (0, -1), (0, -1)),
      point_data = [], cell_data = []\<rparr>"

definition SetDimensions :: "int \<Rightarrow> int \<Rightarrow> int \<Rightarrow> vtkImageData \<Rightarrow> vtkImageData" where
  "SetDimensions i j k g = g\<lparr>grid_extent := ((0, i - 1), (0, j - 1), (0, k - 1))\<rparr>"

definition GetDimensions :: "vtkImageData \<Rightarrow> int \<times> int \<times> int" where
  "GetDimensions g =
     (case grid_extent g of
        ((x0, x1), (y0, y1), (z0, z1)) \<Rightarrow> (x1 - x0 + 1, y1 - y0 + 1, z1 - z0 + 1))"

subsection \<open>Images\<close>

text \<open>
  A \<^verbatim>\<open>kwiver::vital::image\<close> has a width, a height and a depth (its planes) and
  one value per pixel and plane. The constructor allocates the memory and does not
  fill it: a pixel that was never written is \<open>None\<close>. \<^verbatim>\<open>at(i, j)\<close> addresses
  plane 0 and \<^verbatim>\<open>at(i, j, k)\<close> plane \<open>k\<close>; an access outside the image is a fault,
  and so is reading a value that was never written.
\<close>

record image =
  width :: nat
  height :: nat
  depth :: nat
  pixels :: "nat \<times> nat \<times> nat \<rightharpoonup> double"

definition new_image :: "nat \<Rightarrow> nat \<Rightarrow> nat \<Rightarrow> image" where
  "new_image w h d = \<lparr>width = w, height = h, depth = d, pixels = Map.empty\<rparr>"

definition at_set :: "image \<Rightarrow> int \<Rightarrow> int \<Rightarrow> double \<Rightarrow> fault + image" where
  "at_set img x y v =
     (if 0 \<le> x \<and> nat x < width img \<and> 0 \<le> y \<and> nat y < height img \<and> 0 < depth img
      then Inr (img\<lparr>pixels := (pixels img)((nat x, nat y, 0) \<mapsto> v)\<rparr>)
      else Inl PixelOutOfRange)"

definition at_get :: "image \<Rightarrow> nat \<Rightarrow> nat \<Rightarrow> nat \<Rightarrow> fault + double" where
  "at_get img i j k =
     (if i < width img \<and> j < height img \<and> k < depth img
      then (case pixels img (i, j, k) of
              None \<Rightarrow> Inl UninitialisedRead
            | Some v \<Rightarrow> Inr v)
      else Inl PixelOutOfRange)"

text \<open>The conversion of an \<^verbatim>\<open>int\<close> to \<^verbatim>\<open>size_t\<close>, as the image constructor receives it.\<close>

definition size_t_of_int :: "int \<Rightarrow> nat" where
  "size_t_of_int i = nat (i mod 2 ^ 64)"

definition INT_MAX :: int where
  "INT_MAX = 2 ^ 31 - 1"

text \<open>An image is populated when every one of its values has been written.\<close>

definition populated :: "image \<Rightarrow> bool" where
  "populated img =
     (\<forall>i<width img. \<forall>j<height img. \<forall>k<depth img. pixels img (i, j, k) \<noteq> None)"

section \<open>load_depth_map\<close>

text \<open>
  The reader is a function from a file name to the \<^verbatim>\<open>vtkImageData\<close> that
  \<^verbatim>\<open>vtkXMLImageDataReader\<close> produces for it. The inner loop runs \<open>x\<close> upwards over
  one row, the outer loop runs \<open>y\<close> from \<open>dims[1] - 1\<close> down to 0; \<open>pt_id\<close> counts
  the values read so far. In the assignment the right-hand side is evaluated
  first.
\<close>

function load_row ::
  "vtkDataArray option \<Rightarrow> int \<Rightarrow> int \<Rightarrow> int \<Rightarrow> image \<times> int \<Rightarrow> fault + image \<times> int" where
  "load_row depths dims0 y x (img, pt_id) =
     (if x < dims0 then
        (case GetValue depths pt_id of
           Inl e \<Rightarrow> Inl e
         | Inr v \<Rightarrow>
             (case at_set img x y v of
                Inl e \<Rightarrow> Inl e
              | Inr img' \<Rightarrow> load_row depths dims0 y (x + 1) (img', pt_id + 1)))
      else Inr (img, pt_id))"
  by pat_completeness auto
termination
  by (relation "measure (\<lambda>(depths, dims0, y, x, s). nat (dims0 - x))") auto

declare load_row.simps [simp del]

function load_rows ::
  "vtkDataArray option \<Rightarrow> int \<Rightarrow> int \<Rightarrow> image \<times> int \<Rightarrow> fault + image \<times> int" where
  "load_rows depths dims0 y s =
     (if y \<ge> 0 then
        (case load_row depths dims0 y 0 s of
           Inl e \<Rightarrow> Inl e
         | Inr s' \<Rightarrow> load_rows depths dims0 (y - 1) s')
      else Inr s)"
  by pat_completeness auto
termination
  by (relation "measure (\<lambda>(depths, dims0, y, s). nat (y + 1))") auto

declare load_rows.simps [simp del]

definition load_depth_map :: "(string \<Rightarrow> vtkImageData) \<Rightarrow> string \<Rightarrow> fault + image" where
  "load_depth_map reader filename =
     (let vtk_img = reader filename;
          depths = dynamic_cast_vtkDoubleArray (GetArray (point_data vtk_img) ''Depths'')
      in case GetDimensions vtk_img of
           (dims0, dims1, dims2) \<Rightarrow>
             (let img = new_image (size_t_of_int dims0) (size_t_of_int dims1) (size_t_of_int dims2)
              in case load_rows depths dims0 (dims1 - 1) (img, 0) of
                   Inl e \<Rightarrow> Inl e
                 | Inr (img', pt_id) \<Rightarrow> Inr img'))"

section \<open>volume_to_vtk\<close>

text \<open>
  \<^verbatim>\<open>image_container::width()\<close>, \<^verbatim>\<open>height()\<close> and \<^verbatim>\<open>depth()\<close> return \<^verbatim>\<open>size_t\<close>.
  \<^verbatim>\<open>SetDimensions\<close> takes \<^verbatim>\<open>int\<close> and \<^verbatim>\<open>SetNumberOfTuples\<close> takes the 64-bit signed
  \<^verbatim>\<open>vtkIdType\<close>; the product of the three sizes is computed in \<^verbatim>\<open>size_t\<close>.
\<close>

definition int_of_size_t :: "nat \<Rightarrow> int" where
  "int_of_size_t n =
     (let m = int (n mod 2 ^ 32) in if m < 2 ^ 31 then m else m - 2 ^ 32)"

definition vtkIdType_of_size_t :: "nat \<Rightarrow> int" where
  "vtkIdType_of_size_t n =
     (let m = int (n mod 2 ^ 64) in if m < 2 ^ 63 then m else m - 2 ^ 64)"

definition size_t_mult :: "nat \<Rightarrow> nat \<Rightarrow> nat" where
  "size_t_mult a b = (a * b) mod 2 ^ 64"

definition SetOrigin :: "vector_3d \<Rightarrow> vtkImageData \<Rightarrow> vtkImageData" where
  "SetOrigin o3 g = g\<lparr>grid_origin := o3\<rparr>"

definition SetSpacing :: "vector_3d \<Rightarrow> vtkImageData \<Rightarrow> vtkImageData" where
  "SetSpacing s3 g = g\<lparr>grid_spacing := s3\<rparr>"

text \<open>
  A new \<^verbatim>\<open>vtkDoubleArray\<close> is empty. \<^verbatim>\<open>SetNumberOfTuples\<close> allocates the values
  without filling them; the model fills them with 0, and \<open>volume_to_vtk\<close>
  overwrites every one of them before it returns. \<^verbatim>\<open>AddArray\<close> appends the array
  to the attribute set, or replaces an array of the same name.
\<close>

definition vtkDoubleArray_New :: vtkDataArray where
  "vtkDoubleArray_New =
     \<lparr>array_name = [], array_type = VTK_DOUBLE, components = 1, array_values = []\<rparr>"

definition SetName :: "string \<Rightarrow> vtkDataArray \<Rightarrow> vtkDataArray" where
  "SetName n a = a\<lparr>array_name := n\<rparr>"

definition SetNumberOfComponents :: "nat \<Rightarrow> vtkDataArray \<Rightarrow> vtkDataArray" where
  "SetNumberOfComponents c a = a\<lparr>components := c\<rparr>"

definition SetNumberOfTuples :: "int \<Rightarrow> vtkDataArray \<Rightarrow> vtkDataArray" where
  "SetNumberOfTuples n a = a\<lparr>array_values := replicate (nat n * components a) 0\<rparr>"

definition SetTuple1 :: "vtkDataArray \<Rightarrow> int \<Rightarrow> double \<Rightarrow> fault + vtkDataArray" where
  "SetTuple1 a idx v =
     (if 0 \<le> idx \<and> nat idx < length (array_values a)
      then Inr (a\<lparr>array_values := (array_values a)[nat idx := v]\<rparr>)
      else Inl ArrayIndexOutOfRange)"

definition AddArray :: "vtkDataArray \<Rightarrow> vtkDataArray list \<Rightarrow> vtkDataArray list" where
  "AddArray a arrays =
     (if array_name a \<in> set (map array_name arrays)
      then map (\<lambda>b. if array_name b = array_name a then a else b) arrays
      else arrays @ [a])"

text \<open>
  A \<^verbatim>\<open>vtkStructuredGrid\<close> stores its points explicitly. \<^verbatim>\<open>vtkImageDataToPointSet\<close>
  keeps the extent, places the point of index \<open>(i, j, k)\<close> at
  \<open>origin + spacing * (i, j, k)\<close>, with \<open>i\<close> running fastest, and passes the point
  and cell arrays on unchanged. The bounding box of a structured grid is the
  componentwise minimum and maximum of its points; a grid without points has none.
\<close>

record vtkStructuredGrid =
  sg_extent :: "(int \<times> int) \<times> (int \<times> int) \<times> (int \<times> int)"
  sg_points :: "vector_3d list"
  sg_point_data :: "vtkDataArray list"
  sg_cell_data :: "vtkDataArray list"

definition grid_point :: "vector_3d \<Rightarrow> vector_3d \<Rightarrow> int \<Rightarrow> int \<Rightarrow> int \<Rightarrow> vector_3d" where
  "grid_point o3 s3 i j k =
     (case (o3, s3) of
        ((ox, oy, oz), (sx, sy, sz)) \<Rightarrow>
          (ox + sx * of_int i, oy + sy * of_int j, oz + sz * of_int k))"

definition vtkImageDataToPointSet :: "vtkImageData \<Rightarrow> vtkStructuredGrid" where
  "vtkImageDataToPointSet g =
     (case grid_extent g of
        ((x0, x1), (y0, y1), (z0, z1)) \<Rightarrow>
          \<lparr>sg_extent = grid_extent g,
           sg_points =
             concat (map (\<lambda>k. concat (map (\<lambda>j.
               map (\<lambda>i. grid_point (grid_origin g) (grid_spacing g) i j k) [x0..x1])
               [y0..y1])) [z0..z1]),
           sg_point_data = point_data g,
           sg_cell_data = cell_data g\<rparr>)"

fun axis_range :: "double list \<Rightarrow> (double \<times> double) option" where
  "axis_range [] = None"
| "axis_range (c # cs) = Some (fold min cs c, fold max cs c)"

definition GetBounds ::
  "vtkStructuredGrid \<Rightarrow> ((double \<times> double) \<times> (double \<times> double) \<times> (double \<times> double)) option" where
  "GetBounds g =
     (case (axis_range (map fst (sg_points g)),
            axis_range (map (fst \<circ> snd) (sg_points g)),
            axis_range (map (snd \<circ> snd) (sg_points g))) of
        (Some bx, Some by, Some bz) \<Rightarrow> Some (bx, by, bz)
      | _ \<Rightarrow> None)"

text \<open>
  The points of a structured grid are those it stores. Its cells lie between the
  points: along an axis with \<open>n > 1\<close> points there are \<open>n - 1\<close> cells, an axis
  with one point does not count, and a grid with no point along some axis has no
  cell. \<open>cell_array_sizes\<close> lists the number of values of each cell array.
\<close>

definition GetNumberOfPoints :: "vtkStructuredGrid \<Rightarrow> nat" where
  "GetNumberOfPoints g = length (sg_points g)"

definition cells_along :: "int \<times> int \<Rightarrow> int" where
  "cells_along e = (if snd e - fst e + 1 > 1 then snd e - fst e else 1)"

definition GetNumberOfCells :: "vtkStructuredGrid \<Rightarrow> int" where
  "GetNumberOfCells g =
     (case sg_extent g of
        (ex, ey, ez) \<Rightarrow>
          if snd ex - fst ex + 1 \<le> 0 \<or> snd ey - fst ey + 1 \<le> 0 \<or> snd ez - fst ez + 1 \<le> 0
          then 0
          else cells_along ex * cells_along ey * cells_along ez)"

definition cell_array_sizes :: "vtkStructuredGrid \<Rightarrow> nat list" where
  "cell_array_sizes g = map (length \<circ> array_values) (sg_cell_data g)"

text \<open>
  The three loops of \<open>volume_to_vtk\<close>, innermost first. The counters \<open>i\<close>, \<open>j\<close>
  and \<open>k\<close> are \<^verbatim>\<open>unsigned int\<close> and wrap at \<open>2 ^ 32\<close>, while the bounds are
  \<^verbatim>\<open>size_t\<close>: a loop whose bound does not fit in 32 bits does not leave by its
  test, and the result \<open>None\<close> stands for a run that does not return.
\<close>

definition UINT_WRAP :: nat where
  "UINT_WRAP = 2 ^ 32"

partial_function (option) copy_row ::
  "image \<Rightarrow> nat \<Rightarrow> nat \<Rightarrow> nat \<Rightarrow> vtkDataArray \<times> int \<Rightarrow> (fault + vtkDataArray \<times> int) option" where
  "copy_row vol k j i s =
     (if i < width vol then
        (case at_get vol i j k of
           Inl e \<Rightarrow> Some (Inl e)
         | Inr v \<Rightarrow>
             (case SetTuple1 (fst s) (snd s) v of
                Inl e \<Rightarrow> Some (Inl e)
              | Inr vals' \<Rightarrow> copy_row vol k j ((i + 1) mod UINT_WRAP) (vals', snd s + 1)))
      else Some (Inr s))"

partial_function (option) copy_plane ::
  "image \<Rightarrow> nat \<Rightarrow> nat \<Rightarrow> vtkDataArray \<times> int \<Rightarrow> (fault + vtkDataArray \<times> int) option" where
  "copy_plane vol k j s =
     (if j < height vol then
        Option.bind (copy_row vol k j 0 s) (\<lambda>r.
          case r of
            Inl e \<Rightarrow> Some (Inl e)
          | Inr s' \<Rightarrow> copy_plane vol k ((j + 1) mod UINT_WRAP) s')
      else Some (Inr s))"

partial_function (option) copy_volume ::
  "image \<Rightarrow> nat \<Rightarrow> vtkDataArray \<times> int \<Rightarrow> (fault + vtkDataArray \<times> int) option" where
  "copy_volume vol k s =
     (if k < depth vol then
        Option.bind (copy_plane vol k 0 s) (\<lambda>r.
          case r of
            Inl e \<Rightarrow> Some (Inl e)
          | Inr s' \<Rightarrow> copy_volume vol ((k + 1) mod UINT_WRAP) s')
      else Some (Inr s))"

definition volume_to_vtk ::
  "image option \<Rightarrow> vector_3d \<Rightarrow> vector_3d \<Rightarrow> (fault + vtkStructuredGrid) option" where
  "volume_to_vtk volume origin spacing =
     (case volume of
        None \<Rightarrow> Some (Inl NullDereference)
      | Some vol \<Rightarrow>
          (let grid = vtkImageData_New;
               grid = SetOrigin origin grid;
               grid = SetDimensions (int_of_size_t (width vol)) (int_of_size_t (height vol))
                        (int_of_size_t (depth vol)) grid;
               grid = SetSpacing spacing grid;
               vals = vtkDoubleArray_New;
               vals = SetName ''reconstruction_scalar'' vals;
               vals = SetNumberOfComponents 1 vals;
               vals = SetNumberOfTuples
                        (vtkIdType_of_size_t
                           (size_t_mult (size_t_mult (width vol) (height vol)) (depth vol))) vals
           in Option.bind (copy_volume vol 0 (vals, 0)) (\<lambda>r.
                case r of
                  Inl e \<Rightarrow> Some (Inl e)
                | Inr (vals', pt_id) \<Rightarrow>
                    Some (Inr (vtkImageDataToPointSet
                                 (grid\<lparr>cell_data := AddArray vals' (cell_data grid)\<rparr>))))))"

section \<open>The tool\<close>

text \<open>
  The integration capability is an opaque function: from the two corners of the
  region of interest, the depth maps and the cameras it yields the volume (a
  pointer that may be null) and the spacing, the two values that the source
  receives through reference parameters.
\<close>

type_synonym integrate_depth_maps =
  "vector_3d \<Rightarrow> vector_3d \<Rightarrow> image list \<Rightarrow> camera_sptr list \<Rightarrow> image option \<times> vector_3d"

text \<open>
  Modelled from the spec: the cancellation signal of the host application, which
  this file never mentions. The spec says "if the host application supports
  cancellation of a running tool, the orchestrator must check for a cancellation
  signal"; the signal is a flag of the tool that the host raises.
\<close>

record cancellable =
  cancelRequested :: bool

text \<open>
  The state of the tool that the source reads: the data that
  \<^verbatim>\<open>AbstractTool\<close> holds (cameras, depth lookup, region of interest, active
  frame, ambient configuration) and \<^verbatim>\<open>FuseDepthToolPrivate::fuse_algo\<close>.
\<close>

record tool = cancellable +
  cameras :: "(frame_id_t, camera_sptr) std_map option"
  depthLookup :: "(frame_id_t, string) std_map option"
  ROI :: "(vector_3d \<times> vector_3d) option"
  activeFrame :: int
  config :: config_block
  fuse_algo :: "integrate_depth_maps option"

text \<open>
  What the tool calls outside this file: the configuration reader, the two static
  members of \<^verbatim>\<open>integrate_depth_maps\<close> that validate a nested configuration block
  and build the algorithm from it, the base class's \<^verbatim>\<open>execute\<close>, and the XML
  image reader.
\<close>

record host =
  readConfig :: "string \<Rightarrow> config_block option"
  check_nested_algo_configuration :: "string \<Rightarrow> config_block \<Rightarrow> bool"
  set_nested_algo_configuration ::
    "string \<Rightarrow> config_block \<Rightarrow> integrate_depth_maps option \<Rightarrow> integrate_depth_maps option"
  AbstractTool_execute :: bool
  reader :: "string \<Rightarrow> vtkImageData"

datatype event =
  MessageBox_information string string
  | MessageBox_critical string string
  | ReadConfig string
  | CheckNestedAlgoConfiguration string config_block
  | SetNestedAlgoConfiguration string config_block
  | BaseExecute
  | ReadDepthFile string
  | Integrate vector_3d vector_3d "image list" "camera_sptr list"
  | Log vector_3d nat
  | UpdateFusion vtkStructuredGrid

text \<open>
  Modelled from the spec: \<^verbatim>\<open>AbstractTool::hasCameras\<close> and
  \<^verbatim>\<open>AbstractTool::hasDepthLookup\<close>, which this file calls and does not define. The
  spec requires "a non-empty camera set and a non-empty depth-map lookup (keyed by
  frame id)" and counts a collection that is "either empty or absent" as missing.
\<close>

definition hasCameras :: "tool \<Rightarrow> bool" where
  "hasCameras t = (case cameras t of None \<Rightarrow> False | Some m \<Rightarrow> m \<noteq> [])"

definition hasDepthLookup :: "tool \<Rightarrow> bool" where
  "hasDepthLookup t = (case depthLookup t of None \<Rightarrow> False | Some m \<Rightarrow> m \<noteq> [])"

subsection \<open>execute\<close>

text \<open>The result is the returned flag, the tool afterwards and the calls made.\<close>

definition execute :: "host \<Rightarrow> tool \<Rightarrow> bool \<times> tool \<times> event list" where
  "execute h t =
     (if \<not> hasCameras t \<or> \<not> hasDepthLookup t then
        (False, t,
         [MessageBox_information ''Insufficient data''
            ''This operation requires a video source, cameras, and landmarks''])
      else
        (case readConfig h ''gui_integrate_depth_maps.conf'' of
           None \<Rightarrow>
             (False, t,
              [ReadConfig ''gui_integrate_depth_maps.conf'',
               MessageBox_critical ''Configuration error''
                 ''No configuration data was found. Please check your installation.''])
         | Some file_config \<Rightarrow>
             (let merged = merge_config file_config (config t) in
              if \<not> check_nested_algo_configuration h BLOCK_IDM merged then
                (False, t,
                 [ReadConfig ''gui_integrate_depth_maps.conf'',
                  CheckNestedAlgoConfiguration BLOCK_IDM merged,
                  MessageBox_critical ''Configuration error''
                    ''An error was found in the integrate_depth_maps configuration.''])
              else
                (AbstractTool_execute h,
                 t\<lparr>fuse_algo := set_nested_algo_configuration h BLOCK_IDM merged (fuse_algo t)\<rparr>,
                 [ReadConfig ''gui_integrate_depth_maps.conf'',
                  CheckNestedAlgoConfiguration BLOCK_IDM merged,
                  SetNestedAlgoConfiguration BLOCK_IDM merged,
                  BaseExecute]))))"

subsection \<open>run\<close>

text \<open>
  The loop over the depth lookup, in the order of the frame ids. A frame without a
  camera is passed over; for the others the camera is cast to
  \<^verbatim>\<open>camera_perspective\<close> and appended, then the depth map is loaded and appended.
\<close>

fun collect_inputs ::
  "(string \<Rightarrow> vtkImageData) \<Rightarrow> (frame_id_t, camera_sptr) std_map \<Rightarrow> (frame_id_t, string) std_map \<Rightarrow>
   camera_sptr list \<times> image list \<times> event list \<Rightarrow>
   fault + camera_sptr list \<times> image list \<times> event list" where
  "collect_inputs rd cams [] s = Inr s"
| "collect_inputs rd cams ((frame, filename) # rest) (cameras_out, depths_out, tr) =
     (case map_of cams frame of
        None \<Rightarrow> collect_inputs rd cams rest (cameras_out, depths_out, tr)
      | Some cam \<Rightarrow>
          (case load_depth_map rd filename of
             Inl e \<Rightarrow> Inl e
           | Inr img \<Rightarrow>
               collect_inputs rd cams rest
                 (cameras_out @ [dynamic_pointer_cast_camera_perspective cam],
                  depths_out @ [img],
                  tr @ [ReadDepthFile filename])))"

text \<open>
  The result of \<open>run\<close> is \<open>None\<close> when the conversion of the volume does not
  return, a fault when a null pointer is followed or an access leaves its array,
  and otherwise the calls made, the last of which hands the grid to the display.
\<close>

definition run :: "host \<Rightarrow> tool \<Rightarrow> (fault + event list) option" where
  "run h t =
     (case cameras t of
        None \<Rightarrow> Some (Inl NullDereference)
      | Some cams \<Rightarrow>
     (case depthLookup t of
        None \<Rightarrow> Some (Inl NullDereference)
      | Some depths \<Rightarrow>
     (case collect_inputs (reader h) cams depths ([], [], []) of
        Inl e \<Rightarrow> Some (Inl e)
      | Inr (cameras_out, depths_out, tr) \<Rightarrow>
     (case ROI t of
        None \<Rightarrow> Some (Inl NullDereference)
      | Some (minpt, maxpt) \<Rightarrow>
     (case fuse_algo t of
        None \<Rightarrow> Some (Inl NullDereference)
      | Some integrate \<Rightarrow>
     (case integrate minpt maxpt depths_out cameras_out of
        (volume, spacing) \<Rightarrow>
          Option.bind (volume_to_vtk volume minpt spacing) (\<lambda>r.
            case r of
              Inl e \<Rightarrow> Some (Inl e)
            | Inr vtk_volume \<Rightarrow>
                (case volume of
                   None \<Rightarrow> Some (Inl NullDereference)
                 | Some vol \<Rightarrow>
                     Some (Inr (tr @
                       [Integrate minpt maxpt depths_out cameras_out,
                        Log minpt (width vol),
                        UpdateFusion vtk_volume]))))))))))"

section \<open>Auxiliary notions\<close>

text \<open>
  The frames that \<open>collect_inputs\<close> keeps: the entries of the depth lookup whose
  frame id has a camera.
\<close>

definition common_entries ::
  "(frame_id_t, camera_sptr) std_map \<Rightarrow> (frame_id_t, string) std_map \<Rightarrow> (frame_id_t \<times> string) list" where
  "common_entries cams depths = filter (\<lambda>(f, p). map_of cams f \<noteq> None) depths"

text \<open>
  A volume fits VTK's integer types when each of its sizes is an \<^verbatim>\<open>int\<close> and the
  number of its voxels is a \<^verbatim>\<open>vtkIdType\<close>.
\<close>

definition fits_vtk :: "image \<Rightarrow> bool" where
  "fits_vtk vol =
     (int (width vol) \<le> INT_MAX \<and> int (height vol) \<le> INT_MAX \<and> int (depth vol) \<le> INT_MAX
      \<and> width vol * height vol * depth vol < 2 ^ 63)"

text \<open>The array that \<open>volume_to_vtk\<close> builds, with the values \<open>vs\<close>.\<close>

definition reconstruction_scalar :: "double list \<Rightarrow> vtkDataArray" where
  "reconstruction_scalar vs =
     \<lparr>array_name = ''reconstruction_scalar'', array_type = VTK_DOUBLE, components = 1,
      array_values = vs\<rparr>"

text \<open>The name of the call that an event records.\<close>

fun event_name :: "event \<Rightarrow> string" where
  "event_name (MessageBox_information title msg) = ''QMessageBox::information''"
| "event_name (MessageBox_critical title msg) = ''QMessageBox::critical''"
| "event_name (ReadConfig name) = ''readConfig''"
| "event_name (CheckNestedAlgoConfiguration b c) = ''check_nested_algo_configuration''"
| "event_name (SetNestedAlgoConfiguration b c) = ''set_nested_algo_configuration''"
| "event_name BaseExecute = ''AbstractTool::execute''"
| "event_name (ReadDepthFile f) = ''load_depth_map''"
| "event_name (Integrate lo hi dms cs) = ''integrate''"
| "event_name (Log v n) = ''std::cerr''"
| "event_name (UpdateFusion g) = ''updateFusion''"

section \<open>Example inputs\<close>

text \<open>
  A depth-map file of width 2 and height 3 with a different value at every point,
  and the grid that the reader yields for a file it cannot read.
\<close>

definition depths_2x3 :: vtkDataArray where
  "depths_2x3 =
     \<lparr>array_name = ''Depths'', array_type = VTK_DOUBLE, components = 1,
      array_values = [1, 2, 3, 4, 5, 6]\<rparr>"

definition grid_2x3 :: vtkImageData where
  "grid_2x3 =
     \<lparr>grid_origin = (0, 0, 0), grid_spacing = (1, 1, 1),
      grid_extent = ((0, 1), (0, 2), (0, 0)),
      point_data = [depths_2x3], cell_data = []\<rparr>"

definition colours_2x3 :: vtkDataArray where
  "colours_2x3 =
     \<lparr>array_name = ''Depths'', array_type = VTK_UNSIGNED_CHAR, components = 1,
      array_values = [1, 2, 3, 4, 5, 6]\<rparr>"

definition grid_2x3_uchar :: vtkImageData where
  "grid_2x3_uchar = grid_2x3\<lparr>point_data := [colours_2x3]\<rparr>"

text \<open>A volume of 2 by 2 by 2 voxels whose value at \<open>(i, j, k)\<close> is \<open>i + 2 j + 4 k\<close>.\<close>

definition cube_2x2x2 :: image where
  "cube_2x2x2 =
     \<lparr>width = 2, height = 2, depth = 2,
      pixels = (\<lambda>(i, j, k).
        if i < 2 \<and> j < 2 \<and> k < 2 then Some (real (i + 2 * j + 4 * k)) else None)\<rparr>"

text \<open>
  A tool with cameras for the frames 2, 3 and 4 and depth maps for the frames 1, 2
  and 4, before and after \<open>execute\<close> has built its algorithm, the same tool
  with a region of interest away from the zero point and an integration that
  returns a spacing other than one, and a host whose configuration file and
  ambient configuration disagree on one key.
\<close>

definition integrate_cube :: integrate_depth_maps where
  "integrate_cube minpt maxpt depths_in cameras_in = (Some cube_2x2x2, (1, 1, 1))"

definition tool_example :: tool where
  "tool_example =
     \<lparr>cancelRequested = False,
      cameras = Some [(2, Some (Perspective 0)), (3, Some (Rpc 1)), (4, Some (Perspective 2))],
      depthLookup = Some [(1, ''d1.vti''), (2, ''d2.vti''), (4, ''d4.vti'')],
      ROI = Some ((0, 0, 0), (2, 2, 2)),
      activeFrame = 2,
      config = [''integrate_depth_maps:type'' \<mapsto> ''cuda''],
      fuse_algo = None\<rparr>"

definition tool_ready :: tool where
  "tool_ready = tool_example\<lparr>fuse_algo := Some integrate_cube\<rparr>"

definition integrate_cube_spaced :: integrate_depth_maps where
  "integrate_cube_spaced minpt maxpt depths_in cameras_in = (Some cube_2x2x2, (2, 3, 4))"

definition tool_offset :: tool where
  "tool_offset =
     tool_example\<lparr>ROI := Some ((1, 2, 3), (5, 8, 11)), fuse_algo := Some integrate_cube_spaced\<rparr>"

definition host_example :: host where
  "host_example =
     \<lparr>readConfig = (\<lambda>name.
        if name = ''gui_integrate_depth_maps.conf''
        then Some [''integrate_depth_maps:type'' \<mapsto> ''ocv'',
                   ''integrate_depth_maps:ray_potential_thickness'' \<mapsto> ''20'']
        else None),
      check_nested_algo_configuration = (\<lambda>block c. c (block @ '':type'') \<noteq> None),
      set_nested_algo_configuration = (\<lambda>block c old. Some integrate_cube),
      AbstractTool_execute = True,
      reader = (\<lambda>f. grid_2x3)\<rparr>"

section \<open>Lemmas about load_depth_map\<close>

lemma load_row_ok:
  assumes "0 \<le> x" "x \<le> w" "0 \<le> y" "nat y < height img" "nat w \<le> width img"
    "0 < depth img" "0 \<le> p" "nat p + nat (w - x) \<le> length (array_values a)"
  shows "\<exists>img'. load_row (Some a) w y x (img, p) = Inr (img', p + (w - x))
     \<and> width img' = width img \<and> height img' = height img \<and> depth img' = depth img
     \<and> (\<forall>i j k. pixels img' (i, j, k) =
           (if j = nat y \<and> k = 0 \<and> nat x \<le> i \<and> i < nat w
            then Some (array_values a ! (nat p + (i - nat x)))
            else pixels img (i, j, k)))"
  using assms
proof (induction "nat (w - x)" arbitrary: x img p)
  case 0
  then have "x = w" by simp
  then show ?case by (subst load_row.simps) auto
next
  case (Suc n)
  then have lt: "x < w" by linarith
  have gv: "GetValue (Some a) p = Inr (array_values a ! nat p)"
    using Suc.prems lt by (simp add: GetValue_def)
  define img1 where "img1 = img\<lparr>pixels := (pixels img)((nat x, nat y, 0) \<mapsto> array_values a ! nat p)\<rparr>"
  have st: "at_set img x y (array_values a ! nat p) = Inr img1"
    using Suc.prems lt by (simp add: at_set_def img1_def)
  have n: "n = nat (w - (x + 1))" using Suc.hyps(2) by linarith
  have "\<exists>img'. load_row (Some a) w y (x + 1) (img1, p + 1) = Inr (img', p + 1 + (w - (x + 1)))
     \<and> width img' = width img1 \<and> height img' = height img1 \<and> depth img' = depth img1
     \<and> (\<forall>i j k. pixels img' (i, j, k) =
           (if j = nat y \<and> k = 0 \<and> nat (x + 1) \<le> i \<and> i < nat w
            then Some (array_values a ! (nat (p + 1) + (i - nat (x + 1))))
            else pixels img1 (i, j, k)))"
    using Suc.prems lt by (intro Suc.hyps(1)[OF n]) (auto simp: img1_def)
  then obtain img' where r: "load_row (Some a) w y (x + 1) (img1, p + 1) = Inr (img', p + 1 + (w - (x + 1)))"
     and d: "width img' = width img1" "height img' = height img1" "depth img' = depth img1"
     and px: "\<And>i j k. pixels img' (i, j, k) =
           (if j = nat y \<and> k = 0 \<and> nat (x + 1) \<le> i \<and> i < nat w
            then Some (array_values a ! (nat (p + 1) + (i - nat (x + 1))))
            else pixels img1 (i, j, k))" by blast
  have res: "load_row (Some a) w y x (img, p) = Inr (img', p + (w - x))"
    by (subst load_row.simps) (simp add: lt gv st r)
  have px': "pixels img' (i, j, k) =
           (if j = nat y \<and> k = 0 \<and> nat x \<le> i \<and> i < nat w
            then Some (array_values a ! (nat p + (i - nat x)))
            else pixels img (i, j, k))" for i j k
  proof (cases "i = nat x \<and> j = nat y \<and> k = 0")
    case True
    then show ?thesis using px[of i j k] Suc.prems lt by (simp add: img1_def)
  next
    case False
    have e: "nat (p + 1) + (i - nat (x + 1)) = nat p + (i - nat x)" if "nat (x + 1) \<le> i"
      using that Suc.prems by linarith
    show ?thesis using False px[of i j k] Suc.prems lt e
      by (auto simp: img1_def nat_add_distrib)
  qed
  show ?case using res d px' by (auto simp: img1_def)
qed

lemma load_rows_ok:
  assumes "- 1 \<le> y" "nat (y + 1) \<le> height img" "0 \<le> w" "nat w \<le> width img"
    "0 < depth img" "0 \<le> p" "nat p + nat (y + 1) * nat w \<le> length (array_values a)"
  shows "\<exists>img'. load_rows (Some a) w y (img, p) = Inr (img', p + (y + 1) * w)
     \<and> width img' = width img \<and> height img' = height img \<and> depth img' = depth img
     \<and> (\<forall>i j k. pixels img' (i, j, k) =
           (if k = 0 \<and> int j \<le> y \<and> i < nat w
            then Some (array_values a ! (nat p + (nat y - j) * nat w + i))
            else pixels img (i, j, k)))"
  using assms
proof (induction "nat (y + 1)" arbitrary: y img p)
  case 0
  then have "y = - 1" by simp
  then show ?case by (subst load_rows.simps) auto
next
  case (Suc n)
  then have y0: "0 \<le> y" by linarith
  have len: "nat (y + 1) * nat w = nat w + nat y * nat w"
    using y0 by (simp add: nat_add_distrib)
  have yh: "nat y < height img" using Suc.prems y0 by linarith
  have l1: "nat p + nat (w - 0) \<le> length (array_values a)" using Suc.prems len by simp
  have "\<exists>img1. load_row (Some a) w y 0 (img, p) = Inr (img1, p + (w - 0))
     \<and> width img1 = width img \<and> height img1 = height img \<and> depth img1 = depth img
     \<and> (\<forall>i j k. pixels img1 (i, j, k) =
           (if j = nat y \<and> k = 0 \<and> nat 0 \<le> i \<and> i < nat w
            then Some (array_values a ! (nat p + (i - nat 0)))
            else pixels img (i, j, k)))"
    by (rule load_row_ok) (use Suc.prems y0 yh l1 in simp_all)
  then obtain img1 where r1: "load_row (Some a) w y 0 (img, p) = Inr (img1, p + (w - 0))"
    and d1: "width img1 = width img" "height img1 = height img" "depth img1 = depth img"
    and px1: "\<And>i j k. pixels img1 (i, j, k) =
           (if j = nat y \<and> k = 0 \<and> nat 0 \<le> i \<and> i < nat w
            then Some (array_values a ! (nat p + (i - nat 0)))
            else pixels img (i, j, k))"
    by blast
  have n: "n = nat (y - 1 + 1)" using Suc.hyps(2) by linarith
  have len2: "nat (p + w) + nat (y - 1 + 1) * nat w \<le> length (array_values a)"
    using Suc.prems y0 len by (simp add: nat_add_distrib)
  have "\<exists>img'. load_rows (Some a) w (y - 1) (img1, p + w) = Inr (img', p + w + (y - 1 + 1) * w)
     \<and> width img' = width img1 \<and> height img' = height img1 \<and> depth img' = depth img1
     \<and> (\<forall>i j k. pixels img' (i, j, k) =
           (if k = 0 \<and> int j \<le> y - 1 \<and> i < nat w
            then Some (array_values a ! (nat (p + w) + (nat (y - 1) - j) * nat w + i))
            else pixels img1 (i, j, k)))"
    by (rule Suc.hyps(1)[OF n]) (use Suc.prems y0 yh d1 len2 in simp_all)
  then obtain img' where r: "load_rows (Some a) w (y - 1) (img1, p + w) = Inr (img', p + w + (y - 1 + 1) * w)"
     and d: "width img' = width img1" "height img' = height img1" "depth img' = depth img1"
     and px: "\<And>i j k. pixels img' (i, j, k) =
           (if k = 0 \<and> int j \<le> y - 1 \<and> i < nat w
            then Some (array_values a ! (nat (p + w) + (nat (y - 1) - j) * nat w + i))
            else pixels img1 (i, j, k))"
    by blast
  have res: "load_rows (Some a) w y (img, p) = Inr (img', p + (y + 1) * w)"
    by (subst load_rows.simps) (simp add: y0 r1 r algebra_simps)
  have px': "pixels img' (i, j, k) =
           (if k = 0 \<and> int j \<le> y \<and> i < nat w
            then Some (array_values a ! (nat p + (nat y - j) * nat w + i))
            else pixels img (i, j, k))" for i j k
  proof (cases "k = 0 \<and> int j \<le> y - 1 \<and> i < nat w")
    case True
    then have "nat (y - 1) - j = nat y - j - 1" "nat y - j \<ge> 1" by linarith+
    then have "(nat (y - 1) - j) * nat w + nat w = (nat y - j) * nat w"
      by (metis add.commute mult_eq_if not_one_le_zero)
    then have "nat (p + w) + (nat (y - 1) - j) * nat w + i = nat p + (nat y - j) * nat w + i"
      using Suc.prems by (simp add: nat_add_distrib)
    then show ?thesis using True px[of i j k] by simp
  next
    case False
    show ?thesis
    proof (cases "j = nat y")
      case True
      then show ?thesis using False px[of i j k] px1[of i j k] y0 by auto
    next
      case F2: False
      then show ?thesis using False px[of i j k] px1[of i j k] y0 by auto
    qed
  qed
  show ?case using res d d1 px' by auto
qed

lemma length_concat_uniform:
  "\<forall>row\<in>set v. length row = w \<Longrightarrow> length (concat v) = length v * w"
  by (induction v) auto

lemma nth_concat_uniform:
  "\<forall>row\<in>set v. length row = w \<Longrightarrow> r < length v \<Longrightarrow> x < w \<Longrightarrow>
     concat v ! (r * w + x) = v ! r ! x"
proof (induction v arbitrary: r)
  case Nil
  then show ?case by simp
next
  case (Cons row v)
  show ?case
  proof (cases r)
    case 0
    then show ?thesis using Cons.prems by (simp add: nth_append)
  next
    case (Suc r')
    then show ?thesis using Cons.prems Cons.IH[of r'] by (simp add: nth_append)
  qed
qed

lemma size_t_of_int_small: "int n \<le> INT_MAX \<Longrightarrow> size_t_of_int (int n) = n"
  by (simp add: size_t_of_int_def INT_MAX_def)

lemma load_depth_map_rows:
  assumes dims: "GetDimensions (rd filename) = (int w, int h, 1)"
    and fits: "int w \<le> INT_MAX" "int h \<le> INT_MAX"
    and arr: "GetArray (point_data (rd filename)) ''Depths'' = Some a"
    and dbl: "array_type a = VTK_DOUBLE"
    and vals: "array_values a = concat v" "length v = h" "\<forall>row\<in>set v. length row = w"
  shows "\<exists>img. load_depth_map rd filename = Inr img
     \<and> width img = w \<and> height img = h
     \<and> (\<forall>x<w. \<forall>y<h. at_get img x y 0 = Inr (v ! (h - 1 - y) ! x))"
proof -
  let ?img0 = "new_image w h 1"
  have cast: "dynamic_cast_vtkDoubleArray (GetArray (point_data (rd filename)) ''Depths'') = Some a"
    using arr dbl by (simp add: dynamic_cast_vtkDoubleArray_def)
  have len: "length (array_values a) = h * w"
    using length_concat_uniform[OF vals(3)] vals(1,2) by simp
  have "\<exists>img'. load_rows (Some a) (int w) (int h - 1) (?img0, 0) = Inr (img', 0 + (int h - 1 + 1) * int w)
     \<and> width img' = width ?img0 \<and> height img' = height ?img0 \<and> depth img' = depth ?img0
     \<and> (\<forall>i j k. pixels img' (i, j, k) =
           (if k = 0 \<and> int j \<le> int h - 1 \<and> i < nat (int w)
            then Some (array_values a ! (nat 0 + (nat (int h - 1) - j) * nat (int w) + i))
            else pixels ?img0 (i, j, k)))"
    by (rule load_rows_ok) (simp_all add: new_image_def len)
  then obtain img' where r: "load_rows (Some a) (int w) (int h - 1) (?img0, 0) = Inr (img', int h * int w)"
    and d: "width img' = w" "height img' = h" "depth img' = 1"
    and px: "\<And>i j. j < h \<Longrightarrow> i < w \<Longrightarrow>
               pixels img' (i, j, 0) = Some (array_values a ! ((h - 1 - j) * w + i))"
    by (auto simp: new_image_def nat_diff_distrib)
  have sz: "size_t_of_int (int w) = w" "size_t_of_int (int h) = h" "size_t_of_int 1 = 1"
    using fits by (simp_all add: size_t_of_int_small) (simp add: size_t_of_int_def)
  have res: "load_depth_map rd filename = Inr img'"
    using dims cast r by (simp add: load_depth_map_def sz)
  have "at_get img' x y 0 = Inr (v ! (h - 1 - y) ! x)" if "x < w" "y < h" for x y
  proof -
    have "h - 1 - y < length v" using that vals by simp
    then have "concat v ! ((h - 1 - y) * w + x) = v ! (h - 1 - y) ! x"
      using vals that by (intro nth_concat_uniform) auto
    then show ?thesis using that d px[of y x] vals by (simp add: at_get_def)
  qed
  then show ?thesis using res d by blast
qed


section \<open>Lemmas about collect_inputs\<close>

lemma collect_inputs_acc:
  assumes "\<forall>(f, p) \<in> set depths. map_of cams f \<noteq> None \<longrightarrow> (\<exists>img. load_depth_map rd p = Inr img)"
  shows "collect_inputs rd cams depths (co, dm, tr) =
     Inr (co @ map (\<lambda>(f, p). dynamic_pointer_cast_camera_perspective (the (map_of cams f)))
                 (common_entries cams depths),
          dm @ map (\<lambda>(f, p). projr (load_depth_map rd p)) (common_entries cams depths),
          tr @ map (\<lambda>(f, p). ReadDepthFile p) (common_entries cams depths))"
  using assms
proof (induction depths arbitrary: co dm tr)
  case Nil
  then show ?case by (simp add: common_entries_def)
next
  case (Cons e depths)
  obtain f p where e: "e = (f, p)" by (cases e)
  have rest: "\<forall>(f, p) \<in> set depths. map_of cams f \<noteq> None \<longrightarrow> (\<exists>img. load_depth_map rd p = Inr img)"
    using Cons.prems by auto
  show ?case
  proof (cases "map_of cams f")
    case None
    then show ?thesis using Cons.IH[OF rest] e by (simp add: common_entries_def)
  next
    case (Some cam)
    then obtain img where "load_depth_map rd p = Inr img" using Cons.prems e by auto
    then show ?thesis using Cons.IH[OF rest] e Some by (simp add: common_entries_def)
  qed
qed



section \<open>Lemmas about volume_to_vtk\<close>

lemma copy_row_ok:
  assumes w: "width vol < UINT_WRAP" and j: "j < height vol" and k: "k < depth vol"
    and i: "i \<le> width vol"
    and pop: "\<forall>i'<width vol. pixels vol (i', j, k) \<noteq> None"
    and p: "0 \<le> p" and len: "nat p + (width vol - i) \<le> length (array_values a)"
  shows "\<exists>vs. copy_row vol k j i (a, p) = Some (Inr (a\<lparr>array_values := vs\<rparr>, p + int (width vol - i)))
     \<and> length vs = length (array_values a)
     \<and> (\<forall>i'. i \<le> i' \<and> i' < width vol \<longrightarrow> pixels vol (i', j, k) = Some (vs ! (nat p + (i' - i))))
     \<and> (\<forall>n. n < nat p \<or> nat p + (width vol - i) \<le> n \<longrightarrow> vs ! n = array_values a ! n)"
  using i p len
proof (induction "width vol - i" arbitrary: i a p)
  case 0
  then have "i = width vol" by simp
  then show ?case
    by (subst copy_row.simps) (auto intro: exI[of _ "array_values a"])
next
  case (Suc n)
  then have lt: "i < width vol" by linarith
  obtain v where v: "pixels vol (i, j, k) = Some v" using pop lt by auto
  have g: "at_get vol i j k = Inr v" using lt j k v by (simp add: at_get_def)
  define a1 where "a1 = a\<lparr>array_values := (array_values a)[nat p := v]\<rparr>"
  have st: "SetTuple1 a p v = Inr a1"
    using Suc.prems lt by (simp add: SetTuple1_def a1_def)
  have wrap: "Suc i mod UINT_WRAP = Suc i" using lt w by simp
  have n: "n = width vol - Suc i" using Suc.hyps(2) by linarith
  have "\<exists>vs. copy_row vol k j (Suc i) (a1, p + 1) =
        Some (Inr (a1\<lparr>array_values := vs\<rparr>, p + 1 + int (width vol - Suc i)))
     \<and> length vs = length (array_values a1)
     \<and> (\<forall>i'. Suc i \<le> i' \<and> i' < width vol \<longrightarrow>
           pixels vol (i', j, k) = Some (vs ! (nat (p + 1) + (i' - Suc i))))
     \<and> (\<forall>m. m < nat (p + 1) \<or> nat (p + 1) + (width vol - Suc i) \<le> m \<longrightarrow>
           vs ! m = array_values a1 ! m)"
    by (rule Suc.hyps(1)[OF n]) (use Suc.prems lt in \<open>simp_all add: a1_def\<close>)
  then obtain vs where r: "copy_row vol k j (Suc i) (a1, p + 1) =
        Some (Inr (a1\<lparr>array_values := vs\<rparr>, p + 1 + int (width vol - Suc i)))"
    and l: "length vs = length (array_values a1)"
    and px: "\<And>i'. Suc i \<le> i' \<Longrightarrow> i' < width vol \<Longrightarrow>
           pixels vol (i', j, k) = Some (vs ! (nat (p + 1) + (i' - Suc i)))"
    and un: "\<And>m. m < nat (p + 1) \<or> nat (p + 1) + (width vol - Suc i) \<le> m \<Longrightarrow>
           vs ! m = array_values a1 ! m"
    by blast
  have a1vs: "a1\<lparr>array_values := vs\<rparr> = a\<lparr>array_values := vs\<rparr>" by (simp add: a1_def)
  have pe: "p + 1 + int (width vol - Suc i) = p + int (width vol - i)" using lt by linarith
  have res: "copy_row vol k j i (a, p) = Some (Inr (a\<lparr>array_values := vs\<rparr>, p + int (width vol - i)))"
    by (subst copy_row.simps) (simp add: lt g st wrap r a1vs pe del: of_nat_diff)
  have l': "length vs = length (array_values a)" using l by (simp add: a1_def)
  have px': "pixels vol (i', j, k) = Some (vs ! (nat p + (i' - i)))"
    if "i \<le> i'" "i' < width vol" for i'
  proof (cases "i' = i")
    case True
    have "vs ! nat p = array_values a1 ! nat p" using un[of "nat p"] Suc.prems by simp
    also have "\<dots> = v" using Suc.prems lt by (simp add: a1_def)
    finally show ?thesis using True v by simp
  next
    case False
    then have "Suc i \<le> i'" using that by simp
    moreover have "nat (p + 1) + (i' - Suc i) = nat p + (i' - i)"
      using \<open>Suc i \<le> i'\<close> Suc.prems by linarith
    ultimately show ?thesis using px[of i'] that by simp
  qed
  have un': "vs ! m = array_values a ! m" if "m < nat p \<or> nat p + (width vol - i) \<le> m" for m
  proof -
    have "m < nat (p + 1) \<or> nat (p + 1) + (width vol - Suc i) \<le> m"
      using that lt Suc.prems by linarith
    then have "vs ! m = array_values a1 ! m" by (rule un)
    moreover have "m \<noteq> nat p" using that lt by linarith
    ultimately show ?thesis by (simp add: a1_def)
  qed
  show ?case using res l' px' un' by blast
qed

lemma diff_mult_step: "j < h \<Longrightarrow> (h - j) * w = w + (h - Suc j) * (w::nat)"
  by (metis Suc_diff_Suc mult_Suc)

lemma copy_plane_ok:
  assumes w: "width vol < UINT_WRAP" and h: "height vol < UINT_WRAP" and k: "k < depth vol"
    and j: "j \<le> height vol"
    and pop: "\<forall>i'<width vol. \<forall>j'<height vol. pixels vol (i', j', k) \<noteq> None"
    and p: "0 \<le> p"
    and len: "nat p + (height vol - j) * width vol \<le> length (array_values a)"
  shows "\<exists>vs. copy_plane vol k j (a, p) =
        Some (Inr (a\<lparr>array_values := vs\<rparr>, p + int ((height vol - j) * width vol)))
     \<and> length vs = length (array_values a)
     \<and> (\<forall>i' j'. j \<le> j' \<and> j' < height vol \<and> i' < width vol \<longrightarrow>
           pixels vol (i', j', k) = Some (vs ! (nat p + (j' - j) * width vol + i')))
     \<and> (\<forall>n. n < nat p \<or> nat p + (height vol - j) * width vol \<le> n \<longrightarrow>
           vs ! n = array_values a ! n)"
  using j p len
proof (induction "height vol - j" arbitrary: j a p)
  case 0
  then have "j = height vol" by simp
  then show ?case
    by (subst copy_plane.simps) (auto intro: exI[of _ "array_values a"])
next
  case (Suc n)
  then have lt: "j < height vol" by linarith
  note step = diff_mult_step[OF lt, of "width vol"]
  have poprow: "\<forall>i'<width vol. pixels vol (i', j, k) \<noteq> None" using pop lt by simp
  have len1: "nat p + (width vol - 0) \<le> length (array_values a)"
    using Suc.prems(3) step by simp
  have "\<exists>vs. copy_row vol k j 0 (a, p) = Some (Inr (a\<lparr>array_values := vs\<rparr>, p + int (width vol - 0)))
     \<and> length vs = length (array_values a)
     \<and> (\<forall>i'. 0 \<le> i' \<and> i' < width vol \<longrightarrow> pixels vol (i', j, k) = Some (vs ! (nat p + (i' - 0))))
     \<and> (\<forall>n. n < nat p \<or> nat p + (width vol - 0) \<le> n \<longrightarrow> vs ! n = array_values a ! n)"
    by (rule copy_row_ok[OF w lt k _ poprow Suc.prems(2) len1]) simp
  then obtain vs1 where r1: "copy_row vol k j 0 (a, p) = Some (Inr (a\<lparr>array_values := vs1\<rparr>, p + int (width vol)))"
    and l1: "length vs1 = length (array_values a)"
    and px1: "\<And>i'. i' < width vol \<Longrightarrow> pixels vol (i', j, k) = Some (vs1 ! (nat p + i'))"
    and un1: "\<And>m. m < nat p \<or> nat p + width vol \<le> m \<Longrightarrow> vs1 ! m = array_values a ! m"
    by auto
  define a1 where "a1 = a\<lparr>array_values := vs1\<rparr>"
  define p1 where "p1 = p + int (width vol)"
  have p1: "0 \<le> p1" "nat p1 = nat p + width vol" using Suc.prems(2) by (simp_all add: p1_def nat_add_distrib)
  have wrap: "Suc j mod UINT_WRAP = Suc j" using lt h by simp
  have n: "n = height vol - Suc j" using Suc.hyps(2) by linarith
  have len2: "nat p1 + (height vol - Suc j) * width vol \<le> length (array_values a1)"
    using Suc.prems(3) step l1 p1 by (simp add: a1_def)
  have "\<exists>vs. copy_plane vol k (Suc j) (a1, p1) =
        Some (Inr (a1\<lparr>array_values := vs\<rparr>, p1 + int ((height vol - Suc j) * width vol)))
     \<and> length vs = length (array_values a1)
     \<and> (\<forall>i' j'. Suc j \<le> j' \<and> j' < height vol \<and> i' < width vol \<longrightarrow>
           pixels vol (i', j', k) = Some (vs ! (nat p1 + (j' - Suc j) * width vol + i')))
     \<and> (\<forall>m. m < nat p1 \<or> nat p1 + (height vol - Suc j) * width vol \<le> m \<longrightarrow>
           vs ! m = array_values a1 ! m)"
    by (rule Suc.hyps(1)[OF n _ p1(1) len2]) (use lt in simp)
  then obtain vs where r: "copy_plane vol k (Suc j) (a1, p1) =
        Some (Inr (a1\<lparr>array_values := vs\<rparr>, p1 + int ((height vol - Suc j) * width vol)))"
    and l: "length vs = length (array_values a1)"
    and px: "\<And>i' j'. Suc j \<le> j' \<Longrightarrow> j' < height vol \<Longrightarrow> i' < width vol \<Longrightarrow>
           pixels vol (i', j', k) = Some (vs ! (nat p1 + (j' - Suc j) * width vol + i'))"
    and un: "\<And>m. m < nat p1 \<or> nat p1 + (height vol - Suc j) * width vol \<le> m \<Longrightarrow>
           vs ! m = array_values a1 ! m"
    by blast
  have a1vs: "a1\<lparr>array_values := vs\<rparr> = a\<lparr>array_values := vs\<rparr>" by (simp add: a1_def)
  have pe: "p1 + int ((height vol - Suc j) * width vol) = p + int ((height vol - j) * width vol)"
    using step by (simp add: p1_def)
  have res: "copy_plane vol k j (a, p) =
      Some (Inr (a\<lparr>array_values := vs\<rparr>, p + int ((height vol - j) * width vol)))"
    using r1 r a1vs pe
    by (subst copy_plane.simps) (simp add: lt wrap a1_def[symmetric] p1_def[symmetric] del: of_nat_mult)
  have l': "length vs = length (array_values a)" using l l1 by (simp add: a1_def)
  have px': "pixels vol (i', j', k) = Some (vs ! (nat p + (j' - j) * width vol + i'))"
    if "j \<le> j'" "j' < height vol" "i' < width vol" for i' j'
  proof (cases "j' = j")
    case True
    have "vs ! (nat p + i') = array_values a1 ! (nat p + i')"
      using un[of "nat p + i'"] that p1 by simp
    also have "\<dots> = vs1 ! (nat p + i')" by (simp add: a1_def)
    finally show ?thesis using True px1[OF that(3)] by simp
  next
    case False
    then have sj: "Suc j \<le> j'" using that by simp
    have "(j' - j) * width vol = width vol + (j' - Suc j) * width vol"
      using sj by (intro diff_mult_step) simp
    then have "nat p1 + (j' - Suc j) * width vol + i' = nat p + (j' - j) * width vol + i'"
      using p1 by simp
    then show ?thesis using px[OF sj that(2,3)] by simp
  qed
  have un': "vs ! m = array_values a ! m"
    if "m < nat p \<or> nat p + (height vol - j) * width vol \<le> m" for m
  proof -
    have c1: "m < nat p1 \<or> nat p1 + (height vol - Suc j) * width vol \<le> m"
      using that p1 step by auto
    have c2: "m < nat p \<or> nat p + width vol \<le> m" using that step by auto
    have "vs ! m = array_values a1 ! m" using c1 by (rule un)
    also have "\<dots> = vs1 ! m" by (simp add: a1_def)
    also have "\<dots> = array_values a ! m" using c2 by (rule un1)
    finally show ?thesis .
  qed
  show ?case using res l' px' un' by blast
qed

lemma copy_volume_ok:
  assumes w: "width vol < UINT_WRAP" and h: "height vol < UINT_WRAP" and d: "depth vol < UINT_WRAP"
    and k: "k \<le> depth vol"
    and pop: "\<forall>i'<width vol. \<forall>j'<height vol. \<forall>k'<depth vol. pixels vol (i', j', k') \<noteq> None"
    and p: "0 \<le> p"
    and len: "nat p + (depth vol - k) * (height vol * width vol) \<le> length (array_values a)"
  shows "\<exists>vs. copy_volume vol k (a, p) =
        Some (Inr (a\<lparr>array_values := vs\<rparr>, p + int ((depth vol - k) * (height vol * width vol))))
     \<and> length vs = length (array_values a)
     \<and> (\<forall>i' j' k'. k \<le> k' \<and> k' < depth vol \<and> j' < height vol \<and> i' < width vol \<longrightarrow>
           pixels vol (i', j', k') =
             Some (vs ! (nat p + (k' - k) * (height vol * width vol) + j' * width vol + i')))
     \<and> (\<forall>n. n < nat p \<or> nat p + (depth vol - k) * (height vol * width vol) \<le> n \<longrightarrow>
           vs ! n = array_values a ! n)"
  using k p len
proof (induction "depth vol - k" arbitrary: k a p)
  case 0
  then have "k = depth vol" by simp
  then show ?case
    by (subst copy_volume.simps) (auto intro: exI[of _ "array_values a"])
next
  case (Suc n)
  define sz where "sz = height vol * width vol"
  from Suc have lt: "k < depth vol" by linarith
  note step = diff_mult_step[OF lt, of sz]
  have popk: "\<forall>i'<width vol. \<forall>j'<height vol. pixels vol (i', j', k) \<noteq> None" using pop lt by simp
  have len1: "nat p + (height vol - 0) * width vol \<le> length (array_values a)"
    using Suc.prems(3) step by (simp add: sz_def)
  have "\<exists>vs. copy_plane vol k 0 (a, p) =
        Some (Inr (a\<lparr>array_values := vs\<rparr>, p + int ((height vol - 0) * width vol)))
     \<and> length vs = length (array_values a)
     \<and> (\<forall>i' j'. 0 \<le> j' \<and> j' < height vol \<and> i' < width vol \<longrightarrow>
           pixels vol (i', j', k) = Some (vs ! (nat p + (j' - 0) * width vol + i')))
     \<and> (\<forall>n. n < nat p \<or> nat p + (height vol - 0) * width vol \<le> n \<longrightarrow>
           vs ! n = array_values a ! n)"
    by (rule copy_plane_ok[OF w h lt _ popk Suc.prems(2) len1]) simp
  then obtain vs1 where r1: "copy_plane vol k 0 (a, p) = Some (Inr (a\<lparr>array_values := vs1\<rparr>, p + int sz))"
    and l1: "length vs1 = length (array_values a)"
    and px1: "\<And>i' j'. j' < height vol \<Longrightarrow> i' < width vol \<Longrightarrow>
                pixels vol (i', j', k) = Some (vs1 ! (nat p + j' * width vol + i'))"
    and un1: "\<And>m. m < nat p \<or> nat p + sz \<le> m \<Longrightarrow> vs1 ! m = array_values a ! m"
    by (auto simp: sz_def)
  define a1 where "a1 = a\<lparr>array_values := vs1\<rparr>"
  define p1 where "p1 = p + int sz"
  have p1: "0 \<le> p1" "nat p1 = nat p + sz" using Suc.prems(2) by (simp_all add: p1_def nat_add_distrib)
  have wrap: "Suc k mod UINT_WRAP = Suc k" using lt d by simp
  have n: "n = depth vol - Suc k" using Suc.hyps(2) by linarith
  have len2: "nat p1 + (depth vol - Suc k) * (height vol * width vol) \<le> length (array_values a1)"
    using Suc.prems(3) step l1 p1 by (simp add: a1_def sz_def)
  have "\<exists>vs. copy_volume vol (Suc k) (a1, p1) =
        Some (Inr (a1\<lparr>array_values := vs\<rparr>, p1 + int ((depth vol - Suc k) * (height vol * width vol))))
     \<and> length vs = length (array_values a1)
     \<and> (\<forall>i' j' k'. Suc k \<le> k' \<and> k' < depth vol \<and> j' < height vol \<and> i' < width vol \<longrightarrow>
           pixels vol (i', j', k') =
             Some (vs ! (nat p1 + (k' - Suc k) * (height vol * width vol) + j' * width vol + i')))
     \<and> (\<forall>m. m < nat p1 \<or> nat p1 + (depth vol - Suc k) * (height vol * width vol) \<le> m \<longrightarrow>
           vs ! m = array_values a1 ! m)"
    by (rule Suc.hyps(1)[OF n _ p1(1) len2]) (use lt in simp)
  then obtain vs where r: "copy_volume vol (Suc k) (a1, p1) =
        Some (Inr (a1\<lparr>array_values := vs\<rparr>, p1 + int ((depth vol - Suc k) * sz)))"
    and l: "length vs = length (array_values a1)"
    and px: "\<And>i' j' k'. Suc k \<le> k' \<Longrightarrow> k' < depth vol \<Longrightarrow> j' < height vol \<Longrightarrow> i' < width vol \<Longrightarrow>
           pixels vol (i', j', k') = Some (vs ! (nat p1 + (k' - Suc k) * sz + j' * width vol + i'))"
    and un: "\<And>m. m < nat p1 \<or> nat p1 + (depth vol - Suc k) * sz \<le> m \<Longrightarrow>
           vs ! m = array_values a1 ! m"
    unfolding sz_def by blast
  have a1vs: "a1\<lparr>array_values := vs\<rparr> = a\<lparr>array_values := vs\<rparr>" by (simp add: a1_def)
  have pe: "p1 + int ((depth vol - Suc k) * sz) = p + int ((depth vol - k) * sz)"
    using step by (simp add: p1_def)
  have res: "copy_volume vol k (a, p) =
      Some (Inr (a\<lparr>array_values := vs\<rparr>, p + int ((depth vol - k) * sz)))"
    using r1 r a1vs pe
    by (subst copy_volume.simps) (simp add: lt wrap a1_def[symmetric] p1_def[symmetric] del: of_nat_mult)
  have l': "length vs = length (array_values a)" using l l1 by (simp add: a1_def)
  have inplane: "j' * width vol + i' < sz" if "j' < height vol" "i' < width vol" for i' j'
  proof -
    have "j' * width vol + i' < j' * width vol + width vol" using that by simp
    also have "\<dots> = Suc j' * width vol" by simp
    also have "\<dots> \<le> height vol * width vol" using that by (intro mult_le_mono1) simp
    finally show ?thesis by (simp add: sz_def)
  qed
  have px': "pixels vol (i', j', k') = Some (vs ! (nat p + (k' - k) * sz + j' * width vol + i'))"
    if "k \<le> k'" "k' < depth vol" "j' < height vol" "i' < width vol" for i' j' k'
  proof (cases "k' = k")
    case True
    have "nat p + j' * width vol + i' < nat p1" using inplane[OF that(3,4)] p1 by simp
    then have "vs ! (nat p + j' * width vol + i') = array_values a1 ! (nat p + j' * width vol + i')"
      using un[of "nat p + j' * width vol + i'"] by simp
    also have "\<dots> = vs1 ! (nat p + j' * width vol + i')" by (simp add: a1_def)
    finally show ?thesis using True px1[OF that(3,4)] by simp
  next
    case False
    then have sk: "Suc k \<le> k'" using that by simp
    have "(k' - k) * sz = sz + (k' - Suc k) * sz"
      using sk by (intro diff_mult_step) simp
    then have "nat p1 + (k' - Suc k) * sz + j' * width vol + i' = nat p + (k' - k) * sz + j' * width vol + i'"
      using p1 by simp
    then show ?thesis using px[OF sk that(2,3,4)] by simp
  qed
  have un': "vs ! m = array_values a ! m"
    if "m < nat p \<or> nat p + (depth vol - k) * sz \<le> m" for m
  proof -
    have c1: "m < nat p1 \<or> nat p1 + (depth vol - Suc k) * sz \<le> m"
      using that p1 step by auto
    have c2: "m < nat p \<or> nat p + sz \<le> m" using that step by auto
    have "vs ! m = array_values a1 ! m" using c1 by (rule un)
    also have "\<dots> = vs1 ! m" by (simp add: a1_def)
    also have "\<dots> = array_values a ! m" using c2 by (rule un1)
    finally show ?thesis .
  qed
  show ?case using res l' px' un' unfolding sz_def by blast
qed

lemma int_of_size_t_small: "int n \<le> INT_MAX \<Longrightarrow> int_of_size_t n = int n"
  by (simp add: int_of_size_t_def INT_MAX_def Let_def)

lemma mult_le_2_63:
  assumes "(a::nat) * b * c < 2 ^ 63" "0 < c"
  shows "a * b < 2 ^ 63"
proof -
  have "a * b \<le> a * b * c" using assms(2) by (cases c) simp_all
  then show ?thesis using assms(1) by linarith
qed

lemma tuple_count:
  assumes "(w::nat) * h * d < 2 ^ 63"
  shows "vtkIdType_of_size_t (size_t_mult (size_t_mult w h) d) = int (w * h * d)"
proof (cases "d = 0")
  case True
  then show ?thesis by (simp add: vtkIdType_of_size_t_def size_t_mult_def)
next
  case False
  then have "w * h < 2 ^ 63" using mult_le_2_63[OF assms] by simp
  then have "w * h < 2 ^ 64" by simp
  then have a: "size_t_mult w h = w * h" by (simp add: size_t_mult_def)
  have "w * h * d < 2 ^ 64" using assms by simp
  then have b: "size_t_mult (w * h) d = w * h * d" by (simp add: size_t_mult_def)
  have c: "(w * h * d) mod 2 ^ 64 = w * h * d" using \<open>w * h * d < 2 ^ 64\<close> by simp
  have e: "int (w * h * d) < 2 ^ 63" using assms by (metis of_nat_less_iff of_nat_numeral of_nat_power)
  show ?thesis unfolding a b vtkIdType_of_size_t_def c Let_def using e by simp
qed

lemma volume_to_vtk_ok:
  assumes fits: "fits_vtk vol" and pop: "populated vol"
  shows "\<exists>vs. volume_to_vtk (Some vol) origin spacing =
      Some (Inr (vtkImageDataToPointSet
        \<lparr>grid_origin = origin, grid_spacing = spacing,
         grid_extent = ((0, int (width vol) - 1), (0, int (height vol) - 1), (0, int (depth vol) - 1)),
         point_data = [], cell_data = [reconstruction_scalar vs]\<rparr>))
    \<and> length vs = width vol * height vol * depth vol
    \<and> (\<forall>i j k. i < width vol \<and> j < height vol \<and> k < depth vol \<longrightarrow>
          at_get vol i j k = Inr (vs ! ((k * height vol + j) * width vol + i)))"
proof -
  define n where "n = width vol * height vol * depth vol"
  define a0 where "a0 = reconstruction_scalar (replicate n 0)"
  have dims: "int_of_size_t (width vol) = int (width vol)"
    "int_of_size_t (height vol) = int (height vol)"
    "int_of_size_t (depth vol) = int (depth vol)"
    using fits by (simp_all add: fits_vtk_def int_of_size_t_small)
  have wrap: "width vol < UINT_WRAP" "height vol < UINT_WRAP" "depth vol < UINT_WRAP"
    using fits by (simp_all add: fits_vtk_def INT_MAX_def UINT_WRAP_def)
  have cnt: "vtkIdType_of_size_t (size_t_mult (size_t_mult (width vol) (height vol)) (depth vol)) = int n"
    using fits unfolding n_def by (intro tuple_count) (simp add: fits_vtk_def)
  have vals0: "SetNumberOfTuples (int n)
      (SetNumberOfComponents (Suc 0) (SetName ''reconstruction_scalar'' vtkDoubleArray_New)) = a0"
    by (simp add: SetNumberOfTuples_def SetNumberOfComponents_def SetName_def
        vtkDoubleArray_New_def a0_def reconstruction_scalar_def)
  have pop': "\<forall>i'<width vol. \<forall>j'<height vol. \<forall>k'<depth vol. pixels vol (i', j', k') \<noteq> None"
    using pop by (simp add: populated_def)
  have len: "nat 0 + (depth vol - 0) * (height vol * width vol) \<le> length (array_values a0)"
    by (simp add: a0_def reconstruction_scalar_def n_def mult.commute mult.left_commute)
  have "\<exists>vs. copy_volume vol 0 (a0, 0) =
        Some (Inr (a0\<lparr>array_values := vs\<rparr>, 0 + int ((depth vol - 0) * (height vol * width vol))))
     \<and> length vs = length (array_values a0)
     \<and> (\<forall>i' j' k'. 0 \<le> k' \<and> k' < depth vol \<and> j' < height vol \<and> i' < width vol \<longrightarrow>
           pixels vol (i', j', k') =
             Some (vs ! (nat 0 + (k' - 0) * (height vol * width vol) + j' * width vol + i')))
     \<and> (\<forall>n. n < nat 0 \<or> nat 0 + (depth vol - 0) * (height vol * width vol) \<le> n \<longrightarrow>
           vs ! n = array_values a0 ! n)"
    by (rule copy_volume_ok[OF wrap _ pop' _ len]) simp_all
  then obtain vs pt where r: "copy_volume vol 0 (a0, 0) = Some (Inr (a0\<lparr>array_values := vs\<rparr>, pt))"
    and l: "length vs = n"
    and px: "\<And>i j k. k < depth vol \<Longrightarrow> j < height vol \<Longrightarrow> i < width vol \<Longrightarrow>
               pixels vol (i, j, k) = Some (vs ! (k * (height vol * width vol) + j * width vol + i))"
    by (auto simp: a0_def reconstruction_scalar_def)
  have a': "a0\<lparr>array_values := vs\<rparr> = reconstruction_scalar vs"
    by (simp add: a0_def reconstruction_scalar_def)
  have res: "volume_to_vtk (Some vol) origin spacing =
      Some (Inr (vtkImageDataToPointSet
        \<lparr>grid_origin = origin, grid_spacing = spacing,
         grid_extent = ((0, int (width vol) - 1), (0, int (height vol) - 1), (0, int (depth vol) - 1)),
         point_data = [], cell_data = [reconstruction_scalar vs]\<rparr>))"
    unfolding volume_to_vtk_def
    by (simp add: Let_def dims cnt vals0 r a' vtkImageData_New_def SetOrigin_def SetDimensions_def
        SetSpacing_def AddArray_def del: of_nat_mult)
  have idx: "at_get vol i j k = Inr (vs ! ((k * height vol + j) * width vol + i))"
    if "i < width vol" "j < height vol" "k < depth vol" for i j k
  proof -
    have "(k * height vol + j) * width vol + i = k * (height vol * width vol) + j * width vol + i"
      by (simp add: algebra_simps)
    then show ?thesis using that px[of k j i] by (simp add: at_get_def)
  qed
  show ?thesis using res l idx unfolding n_def by blast
qed

lemma axis_range_affine:
  fixes c0 s :: real and n :: int
  assumes ne: "cs \<noteq> []" and cs: "set cs = (\<lambda>i. c0 + s * of_int i) ` {0..n}"
    and n: "0 \<le> n" and s: "0 < s"
  shows "axis_range cs = Some (c0, c0 + s * of_int n)"
proof -
  obtain c cs' where c: "cs = c # cs'" using ne by (cases cs) auto
  have fin: "finite (set cs)" by simp
  have lo: "Min (set cs) = c0"
  proof (rule Min_eqI[OF fin])
    show "c0 \<in> set cs" unfolding cs using n by (auto intro: image_eqI[of _ _ 0])
    show "c0 \<le> y" if "y \<in> set cs" for y
      using that s unfolding cs by auto
  qed
  have hi: "Max (set cs) = c0 + s * of_int n"
  proof (rule Max_eqI[OF fin])
    show "c0 + s * of_int n \<in> set cs" unfolding cs using n by auto
    show "y \<le> c0 + s * of_int n" if "y \<in> set cs" for y
      using that s unfolding cs by auto
  qed
  have "fold min cs' c = Min (set cs)"
    unfolding c by (rule Min.set_eq_fold[symmetric])
  moreover have "fold max cs' c = Max (set cs)"
    unfolding c by (rule Max.set_eq_fold[symmetric])
  ultimately show ?thesis using lo hi by (simp add: c)
qed

lemma GetBounds_grid:
  fixes ox oy oz sx sy sz :: real
  assumes ext: "0 \<le> a" "0 \<le> b" "0 \<le> c" and sp: "0 < sx" "0 < sy" "0 < sz"
  shows "GetBounds (vtkImageDataToPointSet
      \<lparr>grid_origin = (ox, oy, oz), grid_spacing = (sx, sy, sz),
       grid_extent = ((0, a), (0, b), (0, c)), point_data = pd, cell_data = cd\<rparr>) =
     Some ((ox, ox + sx * of_int a), (oy, oy + sy * of_int b), (oz, oz + sz * of_int c))"
proof -
  define pts where "pts = concat (map (\<lambda>k. concat (map (\<lambda>j.
               map (\<lambda>i. grid_point (ox, oy, oz) (sx, sy, sz) i j k) [0..a]) [0..b])) [0..c])"
  have mem: "p \<in> set pts \<longleftrightarrow>
      (\<exists>i\<in>{0..a}. \<exists>j\<in>{0..b}. \<exists>k\<in>{0..c}. p = grid_point (ox, oy, oz) (sx, sy, sz) i j k)" for p
    by (auto simp: pts_def)
  have gp: "fst (grid_point (ox, oy, oz) (sx, sy, sz) i j k) = ox + sx * of_int i"
    "fst (snd (grid_point (ox, oy, oz) (sx, sy, sz) i j k)) = oy + sy * of_int j"
    "snd (snd (grid_point (ox, oy, oz) (sx, sy, sz) i j k)) = oz + sz * of_int k" for i j k
    by (simp_all add: grid_point_def)
  have z: "(0::int) \<in> {0..a}" "(0::int) \<in> {0..b}" "(0::int) \<in> {0..c}" using ext by simp_all
  have "grid_point (ox, oy, oz) (sx, sy, sz) 0 0 0 \<in> set pts" unfolding mem using z by blast
  then have ne: "pts \<noteq> []" by auto
  have sx: "set (map fst pts) = (\<lambda>i. ox + sx * of_int i) ` {0..a}"
  proof (intro set_eqI iffI)
    fix x assume "x \<in> set (map fst pts)"
    then obtain p where "p \<in> set pts" "x = fst p" by auto
    then show "x \<in> (\<lambda>i. ox + sx * of_int i) ` {0..a}" unfolding mem using gp(1) by auto
  next
    fix x assume "x \<in> (\<lambda>i. ox + sx * of_int i) ` {0..a}"
    then obtain i where i: "i \<in> {0..a}" "x = ox + sx * of_int i" by auto
    then have "grid_point (ox, oy, oz) (sx, sy, sz) i 0 0 \<in> set pts" unfolding mem using z by blast
    then show "x \<in> set (map fst pts)" using i(2) gp(1)[of i 0 0] by (metis image_eqI set_map)
  qed
  have sy: "set (map (fst \<circ> snd) pts) = (\<lambda>i. oy + sy * of_int i) ` {0..b}"
  proof (intro set_eqI iffI)
    fix x assume "x \<in> set (map (fst \<circ> snd) pts)"
    then obtain p where "p \<in> set pts" "x = fst (snd p)" by auto
    then show "x \<in> (\<lambda>i. oy + sy * of_int i) ` {0..b}" unfolding mem using gp(2) by auto
  next
    fix x assume "x \<in> (\<lambda>i. oy + sy * of_int i) ` {0..b}"
    then obtain j where j: "j \<in> {0..b}" "x = oy + sy * of_int j" by auto
    then have "grid_point (ox, oy, oz) (sx, sy, sz) 0 j 0 \<in> set pts" unfolding mem using z by blast
    then show "x \<in> set (map (fst \<circ> snd) pts)" using j(2) gp(2)[of 0 j 0]
      by (metis comp_apply image_eqI set_map)
  qed
  have sz: "set (map (snd \<circ> snd) pts) = (\<lambda>i. oz + sz * of_int i) ` {0..c}"
  proof (intro set_eqI iffI)
    fix x assume "x \<in> set (map (snd \<circ> snd) pts)"
    then obtain p where "p \<in> set pts" "x = snd (snd p)" by auto
    then show "x \<in> (\<lambda>i. oz + sz * of_int i) ` {0..c}" unfolding mem using gp(3) by auto
  next
    fix x assume "x \<in> (\<lambda>i. oz + sz * of_int i) ` {0..c}"
    then obtain k where k: "k \<in> {0..c}" "x = oz + sz * of_int k" by auto
    then have "grid_point (ox, oy, oz) (sx, sy, sz) 0 0 k \<in> set pts" unfolding mem using z by blast
    then show "x \<in> set (map (snd \<circ> snd) pts)" using k(2) gp(3)[of 0 0 k]
      by (metis comp_apply image_eqI set_map)
  qed
  have rx: "axis_range (map fst pts) = Some (ox, ox + sx * of_int a)"
    by (rule axis_range_affine[OF _ sx ext(1) sp(1)]) (simp add: ne)
  have ry: "axis_range (map (fst \<circ> snd) pts) = Some (oy, oy + sy * of_int b)"
    by (rule axis_range_affine[OF _ sy ext(2) sp(2)]) (simp add: ne)
  have rz: "axis_range (map (snd \<circ> snd) pts) = Some (oz, oz + sz * of_int c)"
    by (rule axis_range_affine[OF _ sz ext(3) sp(3)]) (simp add: ne)
  have "sg_points (vtkImageDataToPointSet
      \<lparr>grid_origin = (ox, oy, oz), grid_spacing = (sx, sy, sz),
       grid_extent = ((0, a), (0, b), (0, c)), point_data = pd, cell_data = cd\<rparr>) = pts"
    by (simp add: vtkImageDataToPointSet_def pts_def)
  then show ?thesis unfolding GetBounds_def by (simp add: rx ry rz)
qed


section \<open>Properties of load_depth_map\<close>

lemma load_depth_map_grid_2x3:
  "\<exists>img. load_depth_map (\<lambda>f. grid_2x3) p = Inr img"
proof -
  have "\<exists>img. load_depth_map (\<lambda>f. grid_2x3) p = Inr img
     \<and> width img = 2 \<and> height img = 3
     \<and> (\<forall>x<2. \<forall>y<3. at_get img x y 0 = Inr ([[1, 2], [3, 4], [5, 6]] ! (3 - 1 - y) ! x))"
    by (rule load_depth_map_rows[where a = depths_2x3])
      (simp_all add: grid_2x3_def depths_2x3_def GetDimensions_def GetArray_def INT_MAX_def)
  then show ?thesis by blast
qed

text \<open>
  C2. For a depth-map file of width \<open>w\<close> and height \<open>h\<close> whose array "Depths"
  holds the rows \<open>v\<close> one after the other, \<open>load_depth_map\<close> returns an image of
  that width and height with \<open>depth.at(x, y) = v[h - 1 - y][x]\<close>: the rows are
  inverted and the columns are kept.
\<close>

theorem load_depth_map_inverts_rows:
  assumes "GetDimensions (rd filename) = (int w, int h, 1)"
    and "int w \<le> INT_MAX" and "int h \<le> INT_MAX"
    and "GetArray (point_data (rd filename)) ''Depths'' = Some a"
    and "array_type a = VTK_DOUBLE"
    and "array_values a = concat v" and "length v = h" and "\<forall>row\<in>set v. length row = w"
  shows "\<exists>img. load_depth_map rd filename = Inr img
     \<and> width img = w \<and> height img = h
     \<and> (\<forall>x<w. \<forall>y<h. at_get img x y 0 = Inr (v ! (h - 1 - y) ! x))"
  using assms by (rule load_depth_map_rows)

theorem load_depth_map_inverts_rows_witness:
  "\<exists>img. load_depth_map (\<lambda>f. grid_2x3) ''a.vti'' = Inr img
     \<and> width img = 2 \<and> height img = 3
     \<and> at_get img 0 0 0 = Inr 5 \<and> at_get img 1 0 0 = Inr 6
     \<and> at_get img 0 1 0 = Inr 3 \<and> at_get img 1 1 0 = Inr 4
     \<and> at_get img 0 2 0 = Inr 1 \<and> at_get img 1 2 0 = Inr 2"
proof -
  have "\<exists>img. load_depth_map (\<lambda>f. grid_2x3) ''a.vti'' = Inr img
     \<and> width img = 2 \<and> height img = 3
     \<and> (\<forall>x<2. \<forall>y<3. at_get img x y 0 = Inr ([[1, 2], [3, 4], [5, 6]] ! (3 - 1 - y) ! x))"
    by (rule load_depth_map_inverts_rows[where a = depths_2x3])
      (simp_all add: grid_2x3_def depths_2x3_def GetDimensions_def GetArray_def INT_MAX_def)
  then obtain img where r: "load_depth_map (\<lambda>f. grid_2x3) ''a.vti'' = Inr img"
    "width img = 2" "height img = 3"
    and px: "\<And>x y. x < 2 \<Longrightarrow> y < 3 \<Longrightarrow>
      at_get img x y 0 = Inr ([[1, 2], [3, 4], [5, 6]] ! (3 - 1 - y) ! x)"
    by blast
  show ?thesis
    using r px[of 0 0] px[of 1 0] px[of 0 1] px[of 1 1] px[of 0 2] px[of 1 2] by simp
qed

section \<open>Properties of execute\<close>

text \<open>
  C3. If the camera set or the depth-map lookup is empty or absent, \<open>execute\<close>
  shows the "Insufficient data" message and returns false at once: that message is
  its only call, so no configuration is read and no algorithm is built, and the
  tool is left as it was.
\<close>

theorem execute_insufficient_data:
  assumes "cameras t = None \<or> cameras t = Some [] \<or> depthLookup t = None \<or> depthLookup t = Some []"
  shows "execute h t =
     (False, t,
      [MessageBox_information ''Insufficient data''
         ''This operation requires a video source, cameras, and landmarks''])"
proof -
  have "\<not> hasCameras t \<or> \<not> hasDepthLookup t"
    using assms by (auto simp: hasCameras_def hasDepthLookup_def)
  then show ?thesis by (auto simp: execute_def)
qed

theorem execute_insufficient_data_witness:
  "execute host_example (tool_example\<lparr>depthLookup := Some []\<rparr>) =
     (False, tool_example\<lparr>depthLookup := Some []\<rparr>,
      [MessageBox_information ''Insufficient data''
         ''This operation requires a video source, cameras, and landmarks''])
   \<and> fuse_algo (fst (snd (execute host_example (tool_example\<lparr>depthLookup := Some []\<rparr>)))) = None"
proof -
  have "execute host_example (tool_example\<lparr>depthLookup := Some []\<rparr>) =
     (False, tool_example\<lparr>depthLookup := Some []\<rparr>,
      [MessageBox_information ''Insufficient data''
         ''This operation requires a video source, cameras, and landmarks''])"
    by (rule execute_insufficient_data) simp
  then show ?thesis by (simp add: tool_example_def)
qed

text \<open>
  C4. If the configuration resource is not found, or the merged configuration fails
  the validation of the nested \<open>integrate_depth_maps\<close> block, \<open>execute\<close> returns
  false and leaves the tool, and with it \<open>fuse_algo\<close>, as it was; no algorithm is
  built. When the cameras and the depth lookup are present, the last call is the
  "Configuration error" message.
\<close>

theorem execute_configuration_error:
  assumes "readConfig h ''gui_integrate_depth_maps.conf'' = None
     \<or> (\<exists>c. readConfig h ''gui_integrate_depth_maps.conf'' = Some c
          \<and> \<not> check_nested_algo_configuration h BLOCK_IDM (merge_config c (config t)))"
  shows "\<exists>tr. execute h t = (False, t, tr)
     \<and> (\<forall>b c. SetNestedAlgoConfiguration b c \<notin> set tr)
     \<and> (hasCameras t \<and> hasDepthLookup t \<longrightarrow>
          (\<exists>msg. last tr = MessageBox_critical ''Configuration error'' msg))"
  using assms by (auto simp: execute_def Let_def)

theorem execute_configuration_error_witness:
  "\<exists>tr. execute (host_example\<lparr>readConfig := (\<lambda>name. None)\<rparr>) tool_example = (False, tool_example, tr)
     \<and> (\<forall>b c. SetNestedAlgoConfiguration b c \<notin> set tr)
     \<and> (\<exists>msg. last tr = MessageBox_critical ''Configuration error'' msg)"
proof -
  have "hasCameras tool_example \<and> hasDepthLookup tool_example"
    by (simp add: hasCameras_def hasDepthLookup_def tool_example_def)
  then show ?thesis
    using execute_configuration_error[of "host_example\<lparr>readConfig := (\<lambda>name. None)\<rparr>" tool_example]
    by simp
qed

text \<open>
  C10. \<open>execute\<close> merges the ambient configuration of the tool into the
  configuration read from the file, and validates and builds the algorithm from
  the result. In it every key that the ambient configuration defines holds the
  ambient value, also when the file defines the key too, and every other key
  holds the value of the file.
\<close>

theorem execute_ambient_precedence:
  assumes "hasCameras t" and "hasDepthLookup t"
    and "readConfig h ''gui_integrate_depth_maps.conf'' = Some file_config"
    and "file_config key = Some v_file" and "config t key = Some v_ambient"
  shows "merge_config file_config (config t) key = Some v_ambient
     \<and> (\<forall>k v. config t k = Some v \<longrightarrow> merge_config file_config (config t) k = Some v)
     \<and> (\<forall>k. config t k = None \<longrightarrow> merge_config file_config (config t) k = file_config k)
     \<and> (if check_nested_algo_configuration h BLOCK_IDM (merge_config file_config (config t))
        then execute h t =
          (AbstractTool_execute h,
           t\<lparr>fuse_algo := set_nested_algo_configuration h BLOCK_IDM
                             (merge_config file_config (config t)) (fuse_algo t)\<rparr>,
           [ReadConfig ''gui_integrate_depth_maps.conf'',
            CheckNestedAlgoConfiguration BLOCK_IDM (merge_config file_config (config t)),
            SetNestedAlgoConfiguration BLOCK_IDM (merge_config file_config (config t)),
            BaseExecute])
        else execute h t =
          (False, t,
           [ReadConfig ''gui_integrate_depth_maps.conf'',
            CheckNestedAlgoConfiguration BLOCK_IDM (merge_config file_config (config t)),
            MessageBox_critical ''Configuration error''
              ''An error was found in the integrate_depth_maps configuration.'']))"
proof -
  have m: "merge_config file_config (config t) key = Some v_ambient"
    "\<forall>k v. config t k = Some v \<longrightarrow> merge_config file_config (config t) k = Some v"
    "\<forall>k. config t k = None \<longrightarrow> merge_config file_config (config t) k = file_config k"
    using assms(5) by (simp_all add: merge_config_def map_add_def)
  have e: "if check_nested_algo_configuration h BLOCK_IDM (merge_config file_config (config t))
        then execute h t =
          (AbstractTool_execute h,
           t\<lparr>fuse_algo := set_nested_algo_configuration h BLOCK_IDM
                             (merge_config file_config (config t)) (fuse_algo t)\<rparr>,
           [ReadConfig ''gui_integrate_depth_maps.conf'',
            CheckNestedAlgoConfiguration BLOCK_IDM (merge_config file_config (config t)),
            SetNestedAlgoConfiguration BLOCK_IDM (merge_config file_config (config t)),
            BaseExecute])
        else execute h t =
          (False, t,
           [ReadConfig ''gui_integrate_depth_maps.conf'',
            CheckNestedAlgoConfiguration BLOCK_IDM (merge_config file_config (config t)),
            MessageBox_critical ''Configuration error''
              ''An error was found in the integrate_depth_maps configuration.''])"
    using assms(1-3) by (simp add: execute_def Let_def)
  show ?thesis using m e by blast
qed

theorem execute_ambient_precedence_witness:
  "merge_config
      [''integrate_depth_maps:type'' \<mapsto> ''ocv'',
       ''integrate_depth_maps:ray_potential_thickness'' \<mapsto> ''20'']
      (config tool_example) ''integrate_depth_maps:type'' = Some ''cuda''
   \<and> merge_config
      [''integrate_depth_maps:type'' \<mapsto> ''ocv'',
       ''integrate_depth_maps:ray_potential_thickness'' \<mapsto> ''20'']
      (config tool_example) ''integrate_depth_maps:ray_potential_thickness'' = Some ''20''
   \<and> execute host_example tool_example =
        (True, tool_example\<lparr>fuse_algo := Some integrate_cube\<rparr>,
         [ReadConfig ''gui_integrate_depth_maps.conf'',
          CheckNestedAlgoConfiguration BLOCK_IDM
            (merge_config
               [''integrate_depth_maps:type'' \<mapsto> ''ocv'',
                ''integrate_depth_maps:ray_potential_thickness'' \<mapsto> ''20'']
               (config tool_example)),
          SetNestedAlgoConfiguration BLOCK_IDM
            (merge_config
               [''integrate_depth_maps:type'' \<mapsto> ''ocv'',
                ''integrate_depth_maps:ray_potential_thickness'' \<mapsto> ''20'']
               (config tool_example)),
          BaseExecute])"
proof -
  let ?file = "[''integrate_depth_maps:type'' \<mapsto> ''ocv'',
                ''integrate_depth_maps:ray_potential_thickness'' \<mapsto> ''20'']"
  let ?merged = "merge_config ?file (config tool_example)"
  have a: "hasCameras tool_example" "hasDepthLookup tool_example"
    by (simp_all add: hasCameras_def hasDepthLookup_def tool_example_def)
  have b: "readConfig host_example ''gui_integrate_depth_maps.conf'' = Some ?file"
    by (simp add: host_example_def)
  have c: "?file ''integrate_depth_maps:type'' = Some ''ocv''"
    by simp
  have d: "config tool_example ''integrate_depth_maps:type'' = Some ''cuda''"
    by (simp add: tool_example_def)
  have n: "config tool_example ''integrate_depth_maps:ray_potential_thickness'' = None"
    by (simp add: tool_example_def)
  note pre = execute_ambient_precedence[OF a b c d]
  have m1: "?merged ''integrate_depth_maps:type'' = Some ''cuda''"
    using pre by blast
  have "?merged ''integrate_depth_maps:ray_potential_thickness''
      = ?file ''integrate_depth_maps:ray_potential_thickness''"
    using pre n by blast
  then have m2: "?merged ''integrate_depth_maps:ray_potential_thickness'' = Some ''20''"
    by simp
  have chk: "check_nested_algo_configuration host_example BLOCK_IDM ?merged"
    using m1 by (simp add: host_example_def BLOCK_IDM_def)
  have "execute host_example tool_example =
          (AbstractTool_execute host_example,
           tool_example\<lparr>fuse_algo := set_nested_algo_configuration host_example BLOCK_IDM
                             ?merged (fuse_algo tool_example)\<rparr>,
           [ReadConfig ''gui_integrate_depth_maps.conf'',
            CheckNestedAlgoConfiguration BLOCK_IDM ?merged,
            SetNestedAlgoConfiguration BLOCK_IDM ?merged,
            BaseExecute])"
    using pre chk by presburger
  then have e: "execute host_example tool_example =
        (True, tool_example\<lparr>fuse_algo := Some integrate_cube\<rparr>,
         [ReadConfig ''gui_integrate_depth_maps.conf'',
          CheckNestedAlgoConfiguration BLOCK_IDM ?merged,
          SetNestedAlgoConfiguration BLOCK_IDM ?merged,
          BaseExecute])"
    by (simp add: host_example_def)
  show ?thesis using m1 m2 e by blast
qed

section \<open>Properties of run\<close>



section \<open>Properties of volume_to_vtk\<close>

lemma cube_fits: "fits_vtk cube_2x2x2"
  by (simp add: fits_vtk_def cube_2x2x2_def INT_MAX_def)

lemma cube_populated: "populated cube_2x2x2"
  by (simp add: populated_def cube_2x2x2_def)

lemma first_point_of_grid:
  assumes "0 \<le> a" "0 \<le> b" "0 \<le> c"
  shows "sg_points (vtkImageDataToPointSet
      \<lparr>grid_origin = o3, grid_spacing = s3,
       grid_extent = ((0, a), (0, b), (0, c)), point_data = pd, cell_data = cd\<rparr>) ! 0 = o3"
proof -
  obtain ox oy oz sx sy sz where o3: "o3 = (ox, oy, oz)" and s3: "s3 = (sx, sy, sz)"
    by (metis prod_cases3)
  have u: "[0..a] = 0 # [1..a]" "[0..b] = 0 # [1..b]" "[0..c] = 0 # [1..c]"
    using assms by (simp_all add: upto_rec1)
  show ?thesis
    unfolding vtkImageDataToPointSet_def
    by (simp add: u o3 s3 grid_point_def)
qed

lemma cube_grid_counts:
  "GetNumberOfPoints (vtkImageDataToPointSet
      \<lparr>grid_origin = o3, grid_spacing = s3,
       grid_extent = ((0, 1), (0, 1), (0, 1)), point_data = pd, cell_data = cd\<rparr>) = 8"
  "GetNumberOfCells (vtkImageDataToPointSet
      \<lparr>grid_origin = o3, grid_spacing = s3,
       grid_extent = ((0, 1), (0, 1), (0, 1)), point_data = pd, cell_data = cd\<rparr>) = 1"
proof -
  have u: "[0..1::int] = [0, 1]" by (simp add: upto.simps)
  show "GetNumberOfPoints (vtkImageDataToPointSet
      \<lparr>grid_origin = o3, grid_spacing = s3,
       grid_extent = ((0, 1), (0, 1), (0, 1)), point_data = pd, cell_data = cd\<rparr>) = 8"
    by (simp add: GetNumberOfPoints_def vtkImageDataToPointSet_def u)
  show "GetNumberOfCells (vtkImageDataToPointSet
      \<lparr>grid_origin = o3, grid_spacing = s3,
       grid_extent = ((0, 1), (0, 1), (0, 1)), point_data = pd, cell_data = cd\<rparr>) = 1"
    by (simp add: GetNumberOfCells_def cells_along_def vtkImageDataToPointSet_def)
qed

text \<open>
  C5. The claim says that the extent of the output grid is
  \<open>origin + dimension * spacing\<close> per axis and that the volume of dimensions
  \<open>(2, 2, 2)\<close> with origin \<open>(0, 0, 0)\<close> and spacing \<open>(1, 1, 1)\<close> yields the box
  \<open>[0,2] \<times> [0,2] \<times> [0,2]\<close> with 8 cell values. At that input the code yields a
  grid of 8 points and 1 cell, whose box is \<open>[0,1] \<times> [0,1] \<times> [0,1]\<close>, and
  attaches the 8 values to it as cell data: the sizes of the volume were passed
  as numbers of points, where one cell per voxel needs one point more per axis.
\<close>

theorem volume_to_vtk_cell_mismatch:
  "map_option (map_sum id GetBounds) (volume_to_vtk (Some cube_2x2x2) (0, 0, 0) (1, 1, 1))
     = Some (Inr (Some ((0, 1), (0, 1), (0, 1))))
   \<and> map_option (map_sum id GetNumberOfPoints) (volume_to_vtk (Some cube_2x2x2) (0, 0, 0) (1, 1, 1))
     = Some (Inr 8)
   \<and> map_option (map_sum id GetNumberOfCells) (volume_to_vtk (Some cube_2x2x2) (0, 0, 0) (1, 1, 1))
     = Some (Inr 1)
   \<and> map_option (map_sum id cell_array_sizes) (volume_to_vtk (Some cube_2x2x2) (0, 0, 0) (1, 1, 1))
     = Some (Inr [8])"
proof -
  let ?grid = "\<lambda>vs. \<lparr>grid_origin = (0, 0, 0), grid_spacing = (1, 1, 1),
         grid_extent = ((0, 1), (0, 1), (0, 1)),
         point_data = [], cell_data = [reconstruction_scalar vs]\<rparr>"
  obtain vs where r: "volume_to_vtk (Some cube_2x2x2) (0, 0, 0) (1, 1, 1) =
      Some (Inr (vtkImageDataToPointSet (?grid vs)))"
    and l: "length vs = 8"
    using volume_to_vtk_ok[OF cube_fits cube_populated, of "(0, 0, 0)" "(1, 1, 1)"]
    by (auto simp: cube_2x2x2_def)
  have b: "GetBounds (vtkImageDataToPointSet (?grid vs)) = Some ((0, 1), (0, 1), (0, 1))"
    using GetBounds_grid[of 1 1 1 1 1 1 0 0 0 "[]" "[reconstruction_scalar vs]"] by simp
  have c: "cell_array_sizes (vtkImageDataToPointSet (?grid vs)) = [8]"
    using l by (simp add: cell_array_sizes_def vtkImageDataToPointSet_def reconstruction_scalar_def)
  show ?thesis unfolding r by (simp add: b c cube_grid_counts)
qed

text \<open>
  C6. For a populated volume that fits VTK's integer types, \<open>volume_to_vtk\<close>
  builds the array named "reconstruction_scalar" with width times height times
  depth values, the value of the voxel at column \<open>i\<close>, row \<open>j\<close>, depth \<open>k\<close> stored
  at index \<open>(k * height + j) * width + i\<close>; this array is the only array of the
  output grid.
\<close>

theorem volume_to_vtk_linear_index:
  assumes "fits_vtk vol" and "populated vol"
  shows "\<exists>g vs. volume_to_vtk (Some vol) origin spacing = Some (Inr g)
     \<and> sg_cell_data g = [reconstruction_scalar vs] \<and> sg_point_data g = []
     \<and> array_name (reconstruction_scalar vs) = ''reconstruction_scalar''
     \<and> array_values (reconstruction_scalar vs) = vs
     \<and> length vs = width vol * height vol * depth vol
     \<and> (\<forall>i j k. i < width vol \<and> j < height vol \<and> k < depth vol \<longrightarrow>
          at_get vol i j k = Inr (vs ! ((k * height vol + j) * width vol + i)))"
proof -
  let ?grid = "\<lambda>vs. \<lparr>grid_origin = origin, grid_spacing = spacing,
         grid_extent = ((0, int (width vol) - 1), (0, int (height vol) - 1), (0, int (depth vol) - 1)),
         point_data = [], cell_data = [reconstruction_scalar vs]\<rparr>"
  obtain vs where r: "volume_to_vtk (Some vol) origin spacing =
      Some (Inr (vtkImageDataToPointSet (?grid vs)))"
    and l: "length vs = width vol * height vol * depth vol"
    and ix: "\<forall>i j k. i < width vol \<and> j < height vol \<and> k < depth vol \<longrightarrow>
          at_get vol i j k = Inr (vs ! ((k * height vol + j) * width vol + i))"
    using volume_to_vtk_ok[OF assms, of origin spacing] by blast
  have c: "sg_cell_data (vtkImageDataToPointSet (?grid vs)) = [reconstruction_scalar vs]"
    "sg_point_data (vtkImageDataToPointSet (?grid vs)) = []"
    by (simp_all add: vtkImageDataToPointSet_def)
  have n: "array_name (reconstruction_scalar vs) = ''reconstruction_scalar''"
    "array_values (reconstruction_scalar vs) = vs"
    by (simp_all add: reconstruction_scalar_def)
  show ?thesis using r c n l ix
    by (intro exI[of _ "vtkImageDataToPointSet (?grid vs)"] exI[of _ vs]) simp
qed

theorem volume_to_vtk_linear_index_witness:
  "\<exists>g vs. volume_to_vtk (Some cube_2x2x2) (0, 0, 0) (1, 1, 1) = Some (Inr g)
     \<and> sg_cell_data g = [reconstruction_scalar vs] \<and> sg_point_data g = []
     \<and> length vs = 8 \<and> vs ! 0 = 0 \<and> vs ! 1 = 1 \<and> vs ! 2 = 2 \<and> vs ! 5 = 5 \<and> vs ! 7 = 7"
proof -
  obtain g vs where r: "volume_to_vtk (Some cube_2x2x2) (0, 0, 0) (1, 1, 1) = Some (Inr g)"
    "sg_cell_data g = [reconstruction_scalar vs]" "sg_point_data g = []"
    and l: "length vs = width cube_2x2x2 * height cube_2x2x2 * depth cube_2x2x2"
    and ix: "\<And>i j k. i < width cube_2x2x2 \<Longrightarrow> j < height cube_2x2x2 \<Longrightarrow> k < depth cube_2x2x2 \<Longrightarrow>
          at_get cube_2x2x2 i j k = Inr (vs ! ((k * height cube_2x2x2 + j) * width cube_2x2x2 + i))"
    using volume_to_vtk_linear_index[OF cube_fits cube_populated, of "(0, 0, 0)" "(1, 1, 1)"]
    by blast
  have "vs ! 0 = 0" using ix[of 0 0 0] by (simp add: cube_2x2x2_def at_get_def)
  moreover have "vs ! 1 = 1" using ix[of 1 0 0] by (simp add: cube_2x2x2_def at_get_def)
  moreover have "vs ! 2 = 2" using ix[of 0 1 0] by (simp add: cube_2x2x2_def at_get_def)
  moreover have "vs ! 5 = 5" using ix[of 1 0 1] by (simp add: cube_2x2x2_def at_get_def)
  moreover have "vs ! 7 = 7" using ix[of 1 1 1] by (simp add: cube_2x2x2_def at_get_def)
  moreover have "length vs = 8" using l by (simp add: cube_2x2x2_def)
  ultimately show ?thesis using r by blast
qed

section \<open>load_depth_map without the array\<close>

lemma load_depth_map_null_array:
  assumes dims: "GetDimensions (rd filename) = (dims0, dims1, dims2)"
    and pos: "0 < dims0" "0 < dims1"
    and cast: "dynamic_cast_vtkDoubleArray (GetArray (point_data (rd filename)) ''Depths'') = None"
  shows "load_depth_map rd filename = Inl NullDereference"
proof -
  have row: "load_row None dims0 (dims1 - 1) 0 (img, 0) = Inl NullDereference" for img
    using pos by (subst load_row.simps) (simp add: GetValue_def)
  have "load_rows None dims0 (dims1 - 1) (img, 0) = Inl NullDereference" for img
    using pos by (subst load_rows.simps) (simp add: row)
  then show ?thesis using dims cast by (simp add: load_depth_map_def)
qed

lemma load_depth_map_no_rows:
  assumes dims: "GetDimensions (rd filename) = (dims0, dims1, dims2)"
    and none: "dims0 \<le> 0 \<or> dims1 \<le> 0"
  shows "load_depth_map rd filename =
     Inr (new_image (size_t_of_int dims0) (size_t_of_int dims1) (size_t_of_int dims2))"
proof -
  have row: "load_row a dims0 y 0 s = Inr s" if "dims0 \<le> 0" for a y s
  proof (cases s)
    case (Pair img pt_id)
    show ?thesis unfolding Pair using that by (subst load_row.simps) simp
  qed
  have rows: "load_rows a dims0 y s = Inr s" if "dims0 \<le> 0" "- 1 \<le> y" for a y s
    using that
  proof (induction "nat (y + 1)" arbitrary: y)
    case 0
    then have "\<not> 0 \<le> y" by simp
    then show ?case by (subst load_rows.simps) simp
  next
    case (Suc n)
    then have "n = nat (y - 1 + 1)" "- 1 \<le> y - 1" by linarith+
    then have "load_rows a dims0 (y - 1) s = Inr s" using Suc.hyps(1) Suc.prems(1) by blast
    then show ?case using Suc.prems by (subst load_rows.simps) (simp add: row)
  qed
  have "load_rows a dims0 (dims1 - 1) s = Inr s" for a s
  proof (cases "dims1 \<le> 0")
    case True
    then show ?thesis by (subst load_rows.simps) simp
  next
    case False
    then show ?thesis using none by (intro rows) simp_all
  qed
  then show ?thesis using dims by (simp add: load_depth_map_def)
qed

text \<open>
  C8, as the code has it. For a grid with at least one column and one row, an
  array "Depths" that is absent or does not hold doubles makes the cast yield
  null, and the first read through it is a null dereference: the load has no
  defined result and reports no error of its own. So on such a grid the load
  returns an image only if the point data holds a double array named "Depths".
\<close>

theorem load_depth_map_needs_depths:
  assumes "GetDimensions (rd filename) = (dims0, dims1, dims2)"
    and "0 < dims0" and "0 < dims1"
  shows "(GetArray (point_data (rd filename)) ''Depths'' = None
          \<or> (\<exists>a. GetArray (point_data (rd filename)) ''Depths'' = Some a \<and> array_type a \<noteq> VTK_DOUBLE)
        \<longrightarrow> dynamic_cast_vtkDoubleArray (GetArray (point_data (rd filename)) ''Depths'') = None
            \<and> load_depth_map rd filename = Inl NullDereference)
     \<and> (\<forall>img. load_depth_map rd filename = Inr img \<longrightarrow>
          (\<exists>a. GetArray (point_data (rd filename)) ''Depths'' = Some a \<and> array_type a = VTK_DOUBLE))"
proof -
  have "load_depth_map rd filename = Inl NullDereference"
    if "dynamic_cast_vtkDoubleArray (GetArray (point_data (rd filename)) ''Depths'') = None"
    using assms that by (rule load_depth_map_null_array)
  note null = this
  have absent: "dynamic_cast_vtkDoubleArray (GetArray (point_data (rd filename)) ''Depths'') = None"
    if "GetArray (point_data (rd filename)) ''Depths'' = None
          \<or> (\<exists>a. GetArray (point_data (rd filename)) ''Depths'' = Some a \<and> array_type a \<noteq> VTK_DOUBLE)"
    using that by (auto simp: dynamic_cast_vtkDoubleArray_def)
  have present: "\<exists>a. GetArray (point_data (rd filename)) ''Depths'' = Some a \<and> array_type a = VTK_DOUBLE"
    if "load_depth_map rd filename = Inr img" for img
  proof -
    have "dynamic_cast_vtkDoubleArray (GetArray (point_data (rd filename)) ''Depths'') \<noteq> None"
      using null that by auto
    then show ?thesis
      by (auto simp: dynamic_cast_vtkDoubleArray_def split: option.splits if_splits)
  qed
  show ?thesis using absent null present by blast
qed

theorem load_depth_map_needs_depths_witness:
  "dynamic_cast_vtkDoubleArray (GetArray (point_data grid_2x3_uchar) ''Depths'') = None
   \<and> load_depth_map (\<lambda>f. grid_2x3_uchar) ''a.vti'' = Inl NullDereference"
proof -
  have d: "GetDimensions grid_2x3_uchar = (2, 3, 1)"
    by (simp add: grid_2x3_uchar_def grid_2x3_def GetDimensions_def)
  have a: "GetArray (point_data grid_2x3_uchar) ''Depths'' = Some colours_2x3"
    "array_type colours_2x3 \<noteq> VTK_DOUBLE"
    by (simp_all add: grid_2x3_uchar_def GetArray_def colours_2x3_def)
  show ?thesis
    using load_depth_map_needs_depths[of "\<lambda>f. grid_2x3_uchar" "''a.vti''" 2 3 1] d a by simp
qed

text \<open>
  C8, as the claim states it, fails: the grid that the reader yields for a file it
  cannot read has no array "Depths", and \<open>load_depth_map\<close> returns the empty
  image for it, every value of which is populated.
\<close>

theorem load_depth_map_without_depths_counterexample:
  "GetArray (point_data vtkImageData_New) ''Depths'' = None
   \<and> load_depth_map (\<lambda>f. vtkImageData_New) ''missing.vti'' = Inr (new_image 0 0 0)
   \<and> populated (new_image 0 0 0)"
proof -
  have d: "GetDimensions vtkImageData_New = (0, 0, 0)"
    by (simp add: vtkImageData_New_def GetDimensions_def)
  have "load_depth_map (\<lambda>f. vtkImageData_New) ''missing.vti'' =
     Inr (new_image (size_t_of_int 0) (size_t_of_int 0) (size_t_of_int 0))"
    by (rule load_depth_map_no_rows[OF d]) simp
  then show ?thesis
    by (simp add: size_t_of_int_def vtkImageData_New_def GetArray_def populated_def new_image_def)
qed

section \<open>The run as a whole\<close>

lemma run_result:
  assumes "cameras t = Some cams" and "depthLookup t = Some depths"
    and "collect_inputs (reader h) cams depths ([], [], []) = Inr (cameras_out, depths_out, tr)"
    and "ROI t = Some (minpt, maxpt)" and "fuse_algo t = Some integrate"
    and "integrate minpt maxpt depths_out cameras_out = (Some vol, spacing)"
    and "volume_to_vtk (Some vol) minpt spacing = Some (Inr grid)"
  shows "run h t =
     Some (Inr (tr @ [Integrate minpt maxpt depths_out cameras_out,
                      Log minpt (width vol),
                      UpdateFusion grid]))"
  using assms by (simp add: run_def)

lemma collect_inputs_example:
  "\<exists>dms. collect_inputs (\<lambda>f. grid_2x3)
       [(2, Some (Perspective 0)), (3, Some (Rpc 1)), (4, Some (Perspective 2))]
       [(1, ''d1.vti''), (2, ''d2.vti''), (4, ''d4.vti'')] ([], [], [])
     = Inr ([Some (Perspective 0), Some (Perspective 2)], dms,
            [ReadDepthFile ''d2.vti'', ReadDepthFile ''d4.vti''])"
proof -
  let ?cams = "[(2::int, Some (Perspective 0)), (3, Some (Rpc 1)), (4, Some (Perspective 2))]"
  let ?depths = "[(1::int, ''d1.vti''), (2, ''d2.vti''), (4, ''d4.vti'')]"
  have loads: "\<forall>(f, p) \<in> set ?depths. map_of ?cams f \<noteq> None \<longrightarrow>
      (\<exists>img. load_depth_map (\<lambda>f. grid_2x3) p = Inr img)"
    using load_depth_map_grid_2x3 by simp
  have ce: "common_entries ?cams ?depths = [(2, ''d2.vti''), (4, ''d4.vti'')]"
    by (simp add: common_entries_def)
  show ?thesis
    using collect_inputs_acc[OF loads, of "[]" "[]" "[]"] unfolding ce by simp
qed

lemma run_example:
  "\<exists>dms g. run host_example (tool_ready\<lparr>cancelRequested := c\<rparr>) =
     Some (Inr ([ReadDepthFile ''d2.vti'', ReadDepthFile ''d4.vti''] @
                [Integrate (0, 0, 0) (2, 2, 2) dms [Some (Perspective 0), Some (Perspective 2)],
                 Log (0, 0, 0) (width cube_2x2x2),
                 UpdateFusion g]))
     \<and> volume_to_vtk (Some cube_2x2x2) (0, 0, 0) (1, 1, 1) = Some (Inr g)"
proof -
  obtain dms where c: "collect_inputs (reader host_example)
       [(2, Some (Perspective 0)), (3, Some (Rpc 1)), (4, Some (Perspective 2))]
       [(1, ''d1.vti''), (2, ''d2.vti''), (4, ''d4.vti'')] ([], [], [])
     = Inr ([Some (Perspective 0), Some (Perspective 2)], dms,
            [ReadDepthFile ''d2.vti'', ReadDepthFile ''d4.vti''])"
    using collect_inputs_example by (auto simp: host_example_def)
  obtain g where g: "volume_to_vtk (Some cube_2x2x2) (0, 0, 0) (1, 1, 1) = Some (Inr g)"
    using volume_to_vtk_ok[OF cube_fits cube_populated, of "(0, 0, 0)" "(1, 1, 1)"] by blast
  have "run host_example (tool_ready\<lparr>cancelRequested := c\<rparr>) =
     Some (Inr ([ReadDepthFile ''d2.vti'', ReadDepthFile ''d4.vti''] @
                [Integrate (0, 0, 0) (2, 2, 2) dms [Some (Perspective 0), Some (Perspective 2)],
                 Log (0, 0, 0) (width cube_2x2x2),
                 UpdateFusion g]))"
    by (rule run_result[OF _ _ c _ _ _ g, where integrate = integrate_cube])
      (simp_all add: tool_ready_def tool_example_def integrate_cube_def)
  then show ?thesis using g by blast
qed

text \<open>
  C7. When the integration returns a volume and a spacing, \<open>run\<close> converts the
  volume and its last call hands the result to the display. The conversion
  returns for a populated volume that fits VTK's integer types, and the grid
  published is the point set of the image data whose origin is the minimum point
  of the region of interest, whose spacing is the returned spacing and whose
  scalar array holds the voxels of the volume; its first point is that minimum
  point when the volume has a voxel.
\<close>

theorem run_publishes_grid:
  assumes "cameras t = Some cams" and "depthLookup t = Some depths"
    and "collect_inputs (reader h) cams depths ([], [], []) = Inr (cameras_out, depths_out, tr)"
    and "ROI t = Some (minpt, maxpt)" and "fuse_algo t = Some integrate"
    and "integrate minpt maxpt depths_out cameras_out = (Some vol, spacing)"
    and "fits_vtk vol" and "populated vol"
  shows "\<exists>vs grid.
     grid = vtkImageDataToPointSet
        \<lparr>grid_origin = minpt, grid_spacing = spacing,
         grid_extent = ((0, int (width vol) - 1), (0, int (height vol) - 1), (0, int (depth vol) - 1)),
         point_data = [], cell_data = [reconstruction_scalar vs]\<rparr>
     \<and> volume_to_vtk (Some vol) minpt spacing = Some (Inr grid)
     \<and> run h t =
         Some (Inr (tr @ [Integrate minpt maxpt depths_out cameras_out,
                          Log minpt (width vol),
                          UpdateFusion grid]))
     \<and> length vs = width vol * height vol * depth vol
     \<and> (\<forall>i j k. i < width vol \<and> j < height vol \<and> k < depth vol \<longrightarrow>
          at_get vol i j k = Inr (vs ! ((k * height vol + j) * width vol + i)))
     \<and> (0 < width vol \<and> 0 < height vol \<and> 0 < depth vol \<longrightarrow> sg_points grid ! 0 = minpt)"
proof -
  let ?grid = "\<lambda>vs. vtkImageDataToPointSet
        \<lparr>grid_origin = minpt, grid_spacing = spacing,
         grid_extent = ((0, int (width vol) - 1), (0, int (height vol) - 1), (0, int (depth vol) - 1)),
         point_data = [], cell_data = [reconstruction_scalar vs]\<rparr>"
  obtain vs where r: "volume_to_vtk (Some vol) minpt spacing = Some (Inr (?grid vs))"
    and l: "length vs = width vol * height vol * depth vol"
    and ix: "\<forall>i j k. i < width vol \<and> j < height vol \<and> k < depth vol \<longrightarrow>
          at_get vol i j k = Inr (vs ! ((k * height vol + j) * width vol + i))"
    using volume_to_vtk_ok[OF assms(7,8), of minpt spacing] by blast
  have p: "run h t =
         Some (Inr (tr @ [Integrate minpt maxpt depths_out cameras_out,
                          Log minpt (width vol),
                          UpdateFusion (?grid vs)]))"
    using assms(1-6) r by (rule run_result)
  have f: "sg_points (?grid vs) ! 0 = minpt"
    if "0 < width vol \<and> 0 < height vol \<and> 0 < depth vol"
    using that by (intro first_point_of_grid) simp_all
  show ?thesis using r p l ix f by blast
qed

theorem run_publishes_grid_witness:
  "\<exists>dms grid. run host_example tool_offset =
     Some (Inr ([ReadDepthFile ''d2.vti'', ReadDepthFile ''d4.vti''] @
                [Integrate (1, 2, 3) (5, 8, 11) dms [Some (Perspective 0), Some (Perspective 2)],
                 Log (1, 2, 3) 2,
                 UpdateFusion grid]))
     \<and> volume_to_vtk (Some cube_2x2x2) (1, 2, 3) (2, 3, 4) = Some (Inr grid)
     \<and> sg_points grid ! 0 = (1, 2, 3)
     \<and> GetBounds grid = Some ((1, 3), (2, 5), (3, 7))
     \<and> cell_array_sizes grid = [8]"
proof -
  obtain dms where c: "collect_inputs (reader host_example)
       [(2, Some (Perspective 0)), (3, Some (Rpc 1)), (4, Some (Perspective 2))]
       [(1, ''d1.vti''), (2, ''d2.vti''), (4, ''d4.vti'')] ([], [], [])
     = Inr ([Some (Perspective 0), Some (Perspective 2)], dms,
            [ReadDepthFile ''d2.vti'', ReadDepthFile ''d4.vti''])"
    using collect_inputs_example by (auto simp: host_example_def)
  have "\<exists>vs grid.
     grid = vtkImageDataToPointSet
        \<lparr>grid_origin = (1, 2, 3), grid_spacing = (2, 3, 4),
         grid_extent = ((0, int (width cube_2x2x2) - 1), (0, int (height cube_2x2x2) - 1),
                        (0, int (depth cube_2x2x2) - 1)),
         point_data = [], cell_data = [reconstruction_scalar vs]\<rparr>
     \<and> volume_to_vtk (Some cube_2x2x2) (1, 2, 3) (2, 3, 4) = Some (Inr grid)
     \<and> run host_example tool_offset =
         Some (Inr ([ReadDepthFile ''d2.vti'', ReadDepthFile ''d4.vti''] @
                    [Integrate (1, 2, 3) (5, 8, 11) dms [Some (Perspective 0), Some (Perspective 2)],
                     Log (1, 2, 3) (width cube_2x2x2),
                     UpdateFusion grid]))
     \<and> length vs = width cube_2x2x2 * height cube_2x2x2 * depth cube_2x2x2
     \<and> (\<forall>i j k. i < width cube_2x2x2 \<and> j < height cube_2x2x2 \<and> k < depth cube_2x2x2 \<longrightarrow>
          at_get cube_2x2x2 i j k =
            Inr (vs ! ((k * height cube_2x2x2 + j) * width cube_2x2x2 + i)))
     \<and> (0 < width cube_2x2x2 \<and> 0 < height cube_2x2x2 \<and> 0 < depth cube_2x2x2 \<longrightarrow>
          sg_points grid ! 0 = (1, 2, 3))"
    by (rule run_publishes_grid[OF _ _ c _ _ _ cube_fits cube_populated,
          where integrate = integrate_cube_spaced])
      (simp_all add: tool_offset_def tool_example_def integrate_cube_spaced_def)
  then obtain vs grid where
    g: "grid = vtkImageDataToPointSet
        \<lparr>grid_origin = (1, 2, 3), grid_spacing = (2, 3, 4),
         grid_extent = ((0, 1), (0, 1), (0, 1)),
         point_data = [], cell_data = [reconstruction_scalar vs]\<rparr>"
    and v: "volume_to_vtk (Some cube_2x2x2) (1, 2, 3) (2, 3, 4) = Some (Inr grid)"
    and r: "run host_example tool_offset =
         Some (Inr ([ReadDepthFile ''d2.vti'', ReadDepthFile ''d4.vti''] @
                    [Integrate (1, 2, 3) (5, 8, 11) dms [Some (Perspective 0), Some (Perspective 2)],
                     Log (1, 2, 3) 2,
                     UpdateFusion grid]))"
    and l: "length vs = 8"
    and f: "sg_points grid ! 0 = (1, 2, 3)"
    by (auto simp: cube_2x2x2_def)
  have b: "GetBounds grid = Some ((1, 3), (2, 5), (3, 7))"
    unfolding g using GetBounds_grid[of 1 1 1 2 3 4 1 2 3 "[]" "[reconstruction_scalar vs]"] by simp
  have s: "cell_array_sizes grid = [8]"
    unfolding g using l
    by (simp add: cell_array_sizes_def vtkImageDataToPointSet_def reconstruction_scalar_def)
  show ?thesis using r v f b s by blast
qed

text \<open>
  C9, as the code has it. \<open>run\<close> never reads the cancellation signal: with the
  signal raised it loads the same depth maps, calls the same integration and
  publishes the same grid as without it.
\<close>

theorem run_ignores_cancellation:
  "run h (t\<lparr>cancelRequested := c\<rparr>) = run h t"
  by (simp add: run_def cong: option.case_cong sum.case_cong prod.case_cong)

theorem run_ignores_cancellation_witness:
  "run host_example (tool_ready\<lparr>cancelRequested := True\<rparr>) = run host_example tool_ready"
  by (rule run_ignores_cancellation)

text \<open>
  C9, as the claim states it, fails: a run that starts with the cancellation
  signal raised still loads the depth maps of both shared frames, calls the
  integration and publishes the grid.
\<close>

theorem run_cancelled_counterexample:
  "cancelRequested (tool_ready\<lparr>cancelRequested := True\<rparr>)
   \<and> map_option (map_sum id (map event_name))
       (run host_example (tool_ready\<lparr>cancelRequested := True\<rparr>))
     = Some (Inr [''load_depth_map'', ''load_depth_map'', ''integrate'', ''std::cerr'',
                  ''updateFusion''])"
proof -
  obtain dms g where "run host_example (tool_ready\<lparr>cancelRequested := True\<rparr>) =
     Some (Inr ([ReadDepthFile ''d2.vti'', ReadDepthFile ''d4.vti''] @
                [Integrate (0, 0, 0) (2, 2, 2) dms [Some (Perspective 0), Some (Perspective 2)],
                 Log (0, 0, 0) (width cube_2x2x2),
                 UpdateFusion g]))"
    using run_example[of True] by blast
  then show ?thesis by simp
qed

end
